theory Spec2Isabelle
  imports Main
begin

section \<open>The backend as seen by the client\<close>

text \<open>
  The gateway talks to the virtualization backend over HTTP only. A request is what
  \<^verbatim>\<open>VergeOSAPI.fetch\<close> hands to \<^verbatim>\<open>node-fetch\<close>: method, path, the
  \<^verbatim>\<open>Authorization\<close> header of the login call (the user/password pair; its base64
  rendering is left out), the token cookie, and the body. Bodies are kept as the objects
  that \<^verbatim>\<open>JSON.stringify\<close> is applied to: an object literal is an association list
  of its keys in insertion order.
\<close>

datatype body =
    NoBody
  | LoginBody string string
  | ActionBody nat string
  | ChangesBody "(string \<times> int) list"

record http_req =
  meth :: string
  path :: string
  authorization :: "(string \<times> string) option"
  cookie :: "string option"
  body :: body

text \<open>
  The objects the backend returns, as far as the client reads them: a VM of
  \<^verbatim>\<open>/api/v4/vms/{id}\<close>, the rows of \<^verbatim>\<open>/api/v4/machine_status\<close>, and the
  \<^verbatim>\<open>$key\<close> of a login. Any other body is \<open>JOther\<close>.
\<close>

record vm =
  vm_name :: string
  vm_machine :: nat
  vm_cpu_cores :: int
  vm_ram :: int

record machine_status =
  ms_machine :: nat
  ms_running :: bool
  ms_status :: string
  ms_status_info :: string
  ms_migratable :: bool

datatype json =
    JVm vm
  | JStatusList "machine_status list"
  | JKey string
  | JOther

text \<open>
  A response carries its HTTP status, its body as text (read on failure) and as JSON
  (read on success), and \<open>took\<close>, the milliseconds that pass on the clock while the
  client awaits it. A harness with simulated time has \<open>took = 0\<close> everywhere.
\<close>

record http_resp =
  status :: nat
  text_of :: string
  json_of :: json
  took :: nat

definition ok :: "http_resp \<Rightarrow> bool" where
  "ok r = (200 \<le> status r \<and> status r \<le> 299)"

text \<open>
  Everything the process does to the outside is an event: a request sent, or a
  \<^verbatim>\<open>setTimeout\<close> sleep. The world is the clock (\<^verbatim>\<open>Date.now()\<close>, in ms), the
  client's cached credential (\<^verbatim>\<open>this.token\<close>; \<open>None\<close> is \<^verbatim>\<open>null\<close> or
  \<^verbatim>\<open>undefined\<close>) and the events so far. A backend is any deterministic function of
  the events before a request, the clock when it is sent, and the request.
\<close>

datatype event = Sent http_req | Slept nat

record world =
  now :: nat
  token :: "string option"
  trace :: "event list"

type_synonym backend = "event list \<Rightarrow> nat \<Rightarrow> http_req \<Rightarrow> http_resp"

record env =
  VERGEOS_USER :: string
  VERGEOS_PASS :: string
  VERGEOS_TOKEN :: string

text \<open>
  What the client throws: \<^verbatim>\<open>API Error ${status}: ${text}\<close>, the missing
  credentials of \<^verbatim>\<open>getToken\<close>, and the \<^verbatim>\<open>TypeError\<close> of reading a body
  that has not the shape the code expects.
\<close>

datatype exn =
    ApiError nat string
  | NotConfigured
  | TypeError

type_synonym 'a io = "world \<Rightarrow> (exn + 'a) \<times> world"

section \<open>The backend client: \<^verbatim>\<open>class VergeOSAPI\<close>\<close>

text \<open>JavaScript truthiness of a string-or-null: \<^verbatim>\<open>null\<close> and \<^verbatim>\<open>""\<close> are falsy.\<close>

definition truthy :: "string option \<Rightarrow> bool" where
  "truthy t = (case t of None \<Rightarrow> False | Some s \<Rightarrow> s \<noteq> [])"

text \<open>
  The two constructors: the stdio server seeds \<^verbatim>\<open>this.token\<close> with
  \<^verbatim>\<open>VERGEOS_TOKEN\<close> (the empty string when unset), the HTTP server with
  \<^verbatim>\<open>null\<close> (it never reads \<^verbatim>\<open>VERGEOS_TOKEN\<close>).
\<close>

definition constructor_stdio :: "env \<Rightarrow> nat \<Rightarrow> world" where
  "constructor_stdio e t = \<lparr>now = t, token = Some (VERGEOS_TOKEN e), trace = []\<rparr>"

definition constructor_http :: "env \<Rightarrow> nat \<Rightarrow> world" where
  "constructor_http e t = \<lparr>now = t, token = None, trace = []\<rparr>"

text \<open>
  \<^verbatim>\<open>fetch(path, options)\<close>: the token cookie is added when a token is cached and the
  caller gave no \<^verbatim>\<open>Authorization\<close> header; the request goes out, the clock moves on
  by the time the response takes.
\<close>

definition fetch :: "backend \<Rightarrow> http_req \<Rightarrow> world \<Rightarrow> http_resp \<times> world" where
  "fetch B options w =
     (let q = (if truthy (token w) \<and> authorization options = None
               then options\<lparr>cookie := token w\<rparr> else options);
          r = B (trace w) (now w) q
      in (r, w\<lparr>now := now w + took r, trace := trace w @ [Sent q]\<rparr>))"

definition login_req :: "env \<Rightarrow> http_req" where
  "login_req e =
     \<lparr>meth = ''POST'', path = ''/api/sys/tokens'',
      authorization = Some (VERGEOS_USER e, VERGEOS_PASS e), cookie = None,
      body = LoginBody (VERGEOS_USER e) (VERGEOS_PASS e)\<rparr>"

text \<open>\<^verbatim>\<open>data.$key\<close> of the login response; \<^verbatim>\<open>undefined\<close> when the body has none.\<close>

definition dollar_key :: "json \<Rightarrow> string option" where
  "dollar_key j = (case j of JKey k \<Rightarrow> Some k | _ \<Rightarrow> None)"

text \<open>
  \<^verbatim>\<open>getToken()\<close>: a cached token is returned as it is; without one the user/password
  pair is exchanged at the login endpoint, and the \<^verbatim>\<open>$key\<close> of the answer is cached
  (the status of the login response is never looked at).
\<close>

definition getToken :: "backend \<Rightarrow> env \<Rightarrow> (string option) io" where
  "getToken B e w =
     (if truthy (token w) then (Inr (token w), w)
      else if VERGEOS_USER e = [] \<or> VERGEOS_PASS e = [] then (Inl NotConfigured, w)
      else (let (response, w1) = fetch B (login_req e) w;
                k = dollar_key (json_of response)
            in (Inr k, w1\<lparr>token := k\<rparr>)))"

text \<open>
  \<^verbatim>\<open>request(path, options)\<close>, the same text in both servers: make sure there is a
  token, send, and throw \<^verbatim>\<open>API Error ${status}: ${text}\<close> when the response is not ok.
\<close>

definition request :: "backend \<Rightarrow> env \<Rightarrow> http_req \<Rightarrow> json io" where
  "request B e options w =
     (case getToken B e w of
        (Inl err, w1) \<Rightarrow> (Inl err, w1)
      | (Inr _, w1) \<Rightarrow>
          (let (response, w2) = fetch B options w1
           in if \<not> ok response
              then (Inl (ApiError (status response) (text_of response)), w2)
              else (Inr (json_of response), w2)))"

section \<open>VM reads and actions\<close>

text \<open>
  Template strings: \<^verbatim>\<open>${n}\<close> of a number is its decimal rendering. This is what
  JavaScript writes for the integers below \<open>10\<^sup>2\<^sup>1\<close>; from there on it writes
  exponent notation (\<^verbatim>\<open>1e+21\<close>), which \<open>show_nat\<close> does not follow.
\<close>

fun show_nat :: "nat \<Rightarrow> string" where
  "show_nat n =
     (if n < 10 then [''0123456789'' ! n]
      else show_nat (n div 10) @ [''0123456789'' ! (n mod 10)])"

definition show_int :: "int \<Rightarrow> string" where
  "show_int i = (if i < 0 then CHR ''-'' # show_nat (nat (- i)) else show_nat (nat i))"

definition quoted :: "string \<Rightarrow> string" where
  "quoted s = [CHR 0x27] @ s @ [CHR 0x27]"

definition get_req :: "string \<Rightarrow> http_req" where
  "get_req p = \<lparr>meth = ''GET'', path = p, authorization = None, cookie = None, body = NoBody\<rparr>"

definition vm_path :: "nat \<Rightarrow> string" where
  "vm_path vid = ''/api/v4/vms/'' @ show_nat vid @ ''?fields=most''"

text \<open>
  Reading a body as a VM (\<^verbatim>\<open>vm.machine\<close>, \<^verbatim>\<open>vm.name\<close>) or as the status list
  (\<^verbatim>\<open>statuses.find\<close>). A body of another shape is a \<^verbatim>\<open>TypeError\<close> in the model. The
  code throws it where the body is \<^verbatim>\<open>null\<close> or has no \<^verbatim>\<open>find\<close>; on an object
  without the fields of a VM it reads \<^verbatim>\<open>undefined\<close> and goes on (no status row
  matches, and the VM counts as not running), a case the model does not have.
\<close>

definition as_vm :: "json \<Rightarrow> exn + vm" where
  "as_vm j = (case j of JVm v \<Rightarrow> Inr v | _ \<Rightarrow> Inl TypeError)"

definition as_statuses :: "json \<Rightarrow> exn + machine_status list" where
  "as_statuses j = (case j of JStatusList xs \<Rightarrow> Inr xs | _ \<Rightarrow> Inl TypeError)"

text \<open>
  \<^verbatim>\<open>getVM(id)\<close> of the HTTP server: the VM and the status list are requested together
  (\<^verbatim>\<open>Promise.all\<close>), so both requests go out even when the first fails; the model
  sends them in the array's order, one after the other. The VM's fields are returned
  with the power state read off the status row of its machine. Two things of the
  concurrent code are not in the model: on a client without a cached token the code
  starts both requests before either login has answered, so it logs in twice where the
  model logs in once; and the two responses are awaited together, where the model adds
  their times on the clock. Login requests are not among the effects of a call as
  defined below, and no property of \<^verbatim>\<open>modifyVM\<close> below reads the clock.
\<close>

record vm_details = vm +
  d_power_state :: string
  d_running :: bool
  d_status_info :: string
  d_migratable :: bool

definition getVM :: "backend \<Rightarrow> env \<Rightarrow> nat \<Rightarrow> vm_details io" where
  "getVM B e vid w =
     (let (r1, w1) = request B e (get_req (vm_path vid)) w;
          (r2, w2) = request B e (get_req ''/api/v4/machine_status'') w1
      in case r1 of
           Inl err \<Rightarrow> (Inl err, w2)
         | Inr j1 \<Rightarrow>
             (case r2 of
                Inl err \<Rightarrow> (Inl err, w2)
              | Inr j2 \<Rightarrow>
                  (case as_vm j1 of
                     Inl err \<Rightarrow> (Inl err, w2)
                   | Inr v \<Rightarrow>
                       (case as_statuses j2 of
                          Inl err \<Rightarrow> (Inl err, w2)
                        | Inr statuses \<Rightarrow>
                            (case find (\<lambda>s. ms_machine s = vm_machine v) statuses of
                               None \<Rightarrow>
                                 (Inr (vm.extend v
                                    \<lparr>d_power_state = ''unknown'', d_running = False,
                                     d_status_info = [], d_migratable = False\<rparr>), w2)
                             | Some s \<Rightarrow>
                                 (Inr (vm.extend v
                                    \<lparr>d_power_state =
                                       (if ms_status s = [] then ''unknown'' else ms_status s),
                                     d_running = ms_running s,
                                     d_status_info = ms_status_info s,
                                     d_migratable = ms_migratable s\<rparr>), w2))))))"

text \<open>
  \<^verbatim>\<open>getVMStatus(id)\<close> of the HTTP server: the VM is read for its machine reference,
  then the status list, which is filtered on the client. Without a row for the machine
  the VM counts as not running, in state \<^verbatim>\<open>unknown\<close>.
\<close>

record vm_status =
  vm_id :: nat
  name :: string
  machine :: "nat option"
  running :: bool
  power_state :: string
  status_info :: "string option"
  migratable :: "bool option"

definition getVMStatus :: "backend \<Rightarrow> env \<Rightarrow> nat \<Rightarrow> vm_status io" where
  "getVMStatus B e vid w =
     (case request B e (get_req (vm_path vid)) w of
        (Inl err, w1) \<Rightarrow> (Inl err, w1)
      | (Inr j1, w1) \<Rightarrow>
          (case request B e (get_req ''/api/v4/machine_status'') w1 of
             (Inl err, w2) \<Rightarrow> (Inl err, w2)
           | (Inr j2, w2) \<Rightarrow>
               (case as_vm j1 of
                  Inl err \<Rightarrow> (Inl err, w2)
                | Inr v \<Rightarrow>
                    (case as_statuses j2 of
                       Inl err \<Rightarrow> (Inl err, w2)
                     | Inr statuses \<Rightarrow>
                         (case find (\<lambda>s. ms_machine s = vm_machine v) statuses of
                            None \<Rightarrow>
                              (Inr \<lparr>vm_id = vid, name = vm_name v, machine = None,
                                    running = False, power_state = ''unknown'',
                                    status_info = None, migratable = None\<rparr>, w2)
                          | Some s \<Rightarrow>
                              (Inr \<lparr>vm_id = vid, name = vm_name v,
                                    machine = Some (vm_machine v),
                                    running = ms_running s, power_state = ms_status s,
                                    status_info = Some (ms_status_info s),
                                    migratable = Some (ms_migratable s)\<rparr>, w2))))))"

text \<open>\<^verbatim>\<open>vmAction(id, action)\<close>: one POST of \<^verbatim>\<open>{vm: id, action}\<close>.\<close>

definition action_req :: "nat \<Rightarrow> string \<Rightarrow> http_req" where
  "action_req vid action =
     \<lparr>meth = ''POST'', path = ''/api/v4/vm_actions'', authorization = None, cookie = None,
      body = ActionBody vid action\<rparr>"

definition vmAction :: "backend \<Rightarrow> env \<Rightarrow> nat \<Rightarrow> string \<Rightarrow> json io" where
  "vmAction B e vid action w = request B e (action_req vid action) w"

text \<open>\<^verbatim>\<open>await new Promise(resolve => setTimeout(resolve, ms))\<close>.\<close>

definition sleep :: "nat \<Rightarrow> world \<Rightarrow> world" where
  "sleep ms w = w\<lparr>now := now w + ms, trace := trace w @ [Slept ms]\<rparr>"

section \<open>The power-state controller: \<^verbatim>\<open>powerOffVM\<close>\<close>

text \<open>
  The objects the tools return. A key that a return site does not set is \<open>None\<close>.
  (\<open>note_text\<close> is the key \<^verbatim>\<open>note\<close>.)
\<close>

record result =
  success :: bool
  message :: "string option"
  error :: "string option"
  current_state :: "string option"
  was_running :: "bool option"
  note_text :: "string option"
  hint :: "string option"

record power_result = result +
  previous_state :: "string option"
  final_state :: "string option"
  forced :: "bool option"
  elapsed_seconds :: "int option"

definition empty_power :: power_result where
  "empty_power =
     \<lparr>success = False, message = None, error = None, current_state = None,
      was_running = None, note_text = None, hint = None, previous_state = None,
      final_state = None, forced = None, elapsed_seconds = None\<rparr>"

text \<open>
  The options of \<^verbatim>\<open>powerOffVM\<close> with their destructuring defaults
  (\<^verbatim>\<open>wait_timeout = 0, force_after_timeout = false\<close>). The tool schema declares
  \<^verbatim>\<open>wait_timeout\<close> a number of seconds; the model takes whole seconds.
\<close>

record power_options =
  wait_timeout :: "int option"
  force_after_timeout :: "bool option"

definition with_default :: "'a \<Rightarrow> 'a option \<Rightarrow> 'a" where
  "with_default d x = (case x of None \<Rightarrow> d | Some v \<Rightarrow> v)"

text \<open>\<^verbatim>\<open>Math.min(wait_timeout, 300) * 1000\<close>, in ms.\<close>

definition maxWait :: "int \<Rightarrow> int" where
  "maxWait wait = min wait 300 * 1000"

definition pollInterval :: nat where
  "pollInterval = 3000"

text \<open>
  \<^verbatim>\<open>Math.round((Date.now() - startTime) / 1000)\<close>: the nearest whole second, a half
  rounding up.
\<close>

definition elapsed :: "nat \<Rightarrow> world \<Rightarrow> int" where
  "elapsed startTime w = (int (now w) - int startTime + 500) div 1000"

lemma now_fetch: "now w \<le> now (snd (fetch B q w))"
  by (simp add: fetch_def Let_def)

lemma now_getToken: "now w \<le> now (snd (getToken B e w))"
  using now_fetch [of w B "login_req e"]
  by (auto simp: getToken_def Let_def split: prod.splits)

lemma now_request: "now w \<le> now (snd (request B e q w))"
proof -
  have a: "now w \<le> now (snd (getToken B e w))" by (rule now_getToken)
  have b: "now (snd (getToken B e w)) \<le> now (snd (fetch B q (snd (getToken B e w))))"
    by (rule now_fetch)
  show ?thesis using a b
    by (auto simp: request_def Let_def split: prod.splits sum.splits)
qed

lemma now_getVMStatus: "now w \<le> now (snd (getVMStatus B e vid w))"
proof -
  let ?w1 = "snd (request B e (get_req (vm_path vid)) w)"
  have a: "now w \<le> now ?w1" by (rule now_request)
  have b: "now ?w1 \<le> now (snd (request B e (get_req ''/api/v4/machine_status'') ?w1))"
    by (rule now_request)
  show ?thesis using a b
    by (auto simp: getVMStatus_def split: prod.splits sum.splits option.splits)
qed

text \<open>
  The polling loop of \<^verbatim>\<open>powerOffVM\<close>:
  \<^verbatim>\<open>while (Date.now() - startTime < maxWait) { sleep 3 s; read status; if stopped return }\<close>.
  \<open>Inr (Some s)\<close> is the return from inside the loop with the status \<open>s\<close> that was
  read as stopped, \<open>Inr None\<close> is leaving the loop on the clock. Every turn sleeps,
  so the clock reaches \<open>startTime + maxWait\<close> and the loop ends.
\<close>

function poll :: "backend \<Rightarrow> env \<Rightarrow> nat \<Rightarrow> nat \<Rightarrow> int \<Rightarrow> (vm_status option) io" where
  "poll B e vid startTime mw w =
     (if int (now w) - int startTime < mw
      then (case getVMStatus B e vid (sleep pollInterval w) of
              (Inl err, w1) \<Rightarrow> (Inl err, w1)
            | (Inr currentStatus, w1) \<Rightarrow>
                if \<not> running currentStatus then (Inr (Some currentStatus), w1)
                else poll B e vid startTime mw w1)
      else (Inr None, w))"
  by pat_completeness auto
termination
proof (relation "measure (\<lambda>(B, e, vid, startTime, mw, w). nat (int startTime + mw - int (now w)))",
    goal_cases)
  case 1
  show ?case by simp
next
  case (2 B e vid startTime mw w x currentStatus w1)
  then show ?case
    using now_getVMStatus [of "sleep pollInterval w" B e vid]
    by (auto simp: sleep_def pollInterval_def dest!: arg_cong [where f = snd])
qed

declare poll.simps [simp del]
declare show_nat.simps [simp del]

text \<open>
  \<^verbatim>\<open>powerOffVM(id, options)\<close>: read the status; a stopped VM is reported at once;
  otherwise send the graceful \<^verbatim>\<open>poweroff\<close>, return if no wait was asked for, poll,
  and on leaving the loop either kill, wait 2 s and read once more, or read once more
  and report the failure.
\<close>

definition powerOffVM :: "backend \<Rightarrow> env \<Rightarrow> nat \<Rightarrow> power_options \<Rightarrow> power_result io" where
  "powerOffVM B e vid options w =
     (let wait = with_default 0 (wait_timeout options);
          force = with_default False (force_after_timeout options)
      in case getVMStatus B e vid w of
           (Inl err, w1) \<Rightarrow> (Inl err, w1)
         | (Inr st, w1) \<Rightarrow>
             if \<not> running st
             then (Inr (empty_power
                     \<lparr>success := True,
                      message := Some (''VM '' @ quoted (name st) @ '' is already stopped''),
                      current_state := Some (power_state st),
                      was_running := Some False\<rparr>), w1)
             else
               (case vmAction B e vid ''poweroff'' w1 of
                  (Inl err, w2) \<Rightarrow> (Inl err, w2)
                | (Inr _, w2) \<Rightarrow>
                    if wait \<le> 0
                    then (Inr (empty_power
                            \<lparr>success := True,
                             message := Some (''Graceful shutdown command sent to VM ''
                                              @ quoted (name st)),
                             previous_state := Some (power_state st),
                             note_text := Some
                               ''Use wait_timeout parameter to wait for shutdown completion''\<rparr>),
                          w2)
                    else
                      (let startTime = now w2 in
                       case poll B e vid startTime (maxWait wait) w2 of
                         (Inl err, w3) \<Rightarrow> (Inl err, w3)
                       | (Inr (Some currentStatus), w3) \<Rightarrow>
                           (Inr (empty_power
                              \<lparr>success := True,
                               message := Some (''VM '' @ quoted (name st)
                                                @ '' shut down gracefully''),
                               final_state := Some (power_state currentStatus),
                               elapsed_seconds := Some (elapsed startTime w3)\<rparr>), w3)
                       | (Inr None, w3) \<Rightarrow>
                           if force
                           then
                             (case vmAction B e vid ''kill'' w3 of
                                (Inl err, w4) \<Rightarrow> (Inl err, w4)
                              | (Inr _, w4) \<Rightarrow>
                                  (case getVMStatus B e vid (sleep 2000 w4) of
                                     (Inl err, w5) \<Rightarrow> (Inl err, w5)
                                   | (Inr finalStatus, w5) \<Rightarrow>
                                       (Inr (empty_power
                                          \<lparr>success := True,
                                           message := Some (''VM '' @ quoted (name st)
                                             @ '' did not shut down within '' @ show_int wait
                                             @ ''s - forced power off''),
                                           final_state := Some (power_state finalStatus),
                                           forced := Some True,
                                           elapsed_seconds := Some (elapsed startTime w5)\<rparr>),
                                        w5)))
                           else
                             (case getVMStatus B e vid w3 of
                                (Inl err, w4) \<Rightarrow> (Inl err, w4)
                              | (Inr currentStatus, w4) \<Rightarrow>
                                  (Inr (empty_power
                                     \<lparr>success := False,
                                      error := Some (''VM '' @ quoted (name st)
                                        @ '' did not shut down within '' @ show_int wait
                                        @ ''s''),
                                      current_state := Some (power_state currentStatus),
                                      elapsed_seconds := Some (elapsed startTime w4),
                                      hint := Some
                                        ''Use force_after_timeout=true to automatically force shutdown after timeout''\<rparr>),
                                   w4)))))"

section \<open>The reconfiguration workflow: \<^verbatim>\<open>modifyVM\<close>\<close>

text \<open>
  The options of \<^verbatim>\<open>modifyVM\<close>; \<open>None\<close> is a key that is absent or
  \<^verbatim>\<open>undefined\<close>. Defaults: \<^verbatim>\<open>shutdown_if_running = false, wait_timeout = 60,
  force_after_timeout = true\<close>. The numbers are whole.
\<close>

record modify_options = power_options +
  cpu_cores :: "int option"
  ram_mb :: "int option"
  shutdown_if_running :: "bool option"

text \<open>Truthiness of a number-or-undefined: \<^verbatim>\<open>undefined\<close> and \<^verbatim>\<open>0\<close> are falsy.\<close>

definition truthy_num :: "int option \<Rightarrow> bool" where
  "truthy_num x = (case x of None \<Rightarrow> False | Some n \<Rightarrow> n \<noteq> 0)"

text \<open>\<^verbatim>\<open>x || d\<close> on numbers.\<close>

definition or_else :: "int option \<Rightarrow> int \<Rightarrow> int" where
  "or_else x d = (case x of None \<Rightarrow> d | Some n \<Rightarrow> if n \<noteq> 0 then n else d)"

text \<open>\<^verbatim>\<open>String.prototype.includes\<close>.\<close>

fun starts_with :: "string \<Rightarrow> string \<Rightarrow> bool" where
  "starts_with s [] = True"
| "starts_with [] (c # cs) = False"
| "starts_with (x # xs) (c # cs) = (x = c \<and> starts_with xs cs)"

fun includes_str :: "string \<Rightarrow> string \<Rightarrow> bool" where
  "includes_str [] sub = (sub = [])"
| "includes_str (x # xs) sub = (starts_with (x # xs) sub \<or> includes_str xs sub)"

record modify_result = result +
  mod_vm_id :: "nat option"
  current_cpu :: "int option"
  current_ram_mb :: "int option"
  requested_cpu :: "int option"
  requested_ram_mb :: "int option"
  previous_cpu :: "int option"
  previous_ram_mb :: "int option"
  new_cpu :: "int option"
  new_ram_mb :: "int option"
  shutdown_result :: "power_result option"

definition empty_modify :: modify_result where
  "empty_modify =
     \<lparr>success = False, message = None, error = None, current_state = None,
      was_running = None, note_text = None, hint = None, mod_vm_id = None,
      current_cpu = None, current_ram_mb = None, requested_cpu = None,
      requested_ram_mb = None, previous_cpu = None, previous_ram_mb = None,
      new_cpu = None, new_ram_mb = None, shutdown_result = None\<rparr>"

text \<open>
  \<^verbatim>\<open>const changes = {}; if (cpu_cores) changes.cpu_cores = cpu_cores;
  if (ram_mb) changes.ram = ram_mb;\<close>
\<close>

definition changes_of :: "int option \<Rightarrow> int option \<Rightarrow> (string \<times> int) list" where
  "changes_of cpu ram =
     (if truthy_num cpu then [(''cpu_cores'', the cpu)] else [])
     @ (if truthy_num ram then [(''ram'', the ram)] else [])"

definition put_req :: "nat \<Rightarrow> (string \<times> int) list \<Rightarrow> http_req" where
  "put_req vmId changes =
     \<lparr>meth = ''PUT'', path = ''/api/v4/vms/'' @ show_nat vmId, authorization = None,
      cookie = None, body = ChangesBody changes\<rparr>"

text \<open>
  The end of \<^verbatim>\<open>modifyVM\<close>, from \<^verbatim>\<open>// Apply changes\<close> on: the one PUT and the
  success object.
\<close>

definition applyChanges ::
  "backend \<Rightarrow> env \<Rightarrow> nat \<Rightarrow> int option \<Rightarrow> int option \<Rightarrow> vm_details \<Rightarrow> vm_status
     \<Rightarrow> modify_result io" where
  "applyChanges B e vmId cpu ram v st w =
     (case request B e (put_req vmId (changes_of cpu ram)) w of
        (Inl err, w1) \<Rightarrow> (Inl err, w1)
      | (Inr _, w1) \<Rightarrow>
          (Inr (empty_modify
             \<lparr>success := True,
              message := Some (''VM '' @ quoted (vm_name v) @ '' modified successfully''),
              mod_vm_id := Some vmId,
              previous_cpu := Some (vm_cpu_cores v),
              previous_ram_mb := Some (vm_ram v),
              new_cpu := Some (or_else cpu (vm_cpu_cores v)),
              new_ram_mb := Some (or_else ram (vm_ram v)),
              was_running := Some (running st),
              note_text := Some
                (if running st
                 then ''VM was shut down to apply changes. Use power_on_vm to restart it.''
                 else ''VM is stopped. Use power_on_vm to start it with new settings.'')\<rparr>),
           w1))"

definition modifyVM :: "backend \<Rightarrow> env \<Rightarrow> nat \<Rightarrow> modify_options \<Rightarrow> modify_result io" where
  "modifyVM B e vmId options w =
     (let cpu = cpu_cores options; ram = ram_mb options;
          shutdown = with_default False (shutdown_if_running options);
          wait = with_default 60 (wait_timeout options);
          force = with_default True (force_after_timeout options)
      in if \<not> truthy_num cpu \<and> \<not> truthy_num ram
         then (Inr (empty_modify
                 \<lparr>success := False,
                  error := Some ''Must specify cpu_cores and/or ram_mb to modify''\<rparr>), w)
         else
           (case getVM B e vmId w of
              (Inl err, w1) \<Rightarrow> (Inl err, w1)
            | (Inr v, w1) \<Rightarrow>
                (case getVMStatus B e vmId w1 of
                   (Inl err, w2) \<Rightarrow> (Inl err, w2)
                 | (Inr st, w2) \<Rightarrow>
                     if running st
                     then
                       if \<not> shutdown
                       then (Inr (empty_modify
                               \<lparr>success := False,
                                error := Some (''VM '' @ quoted (vm_name v)
                                  @ '' is currently running. CPU/RAM changes require the VM to be powered off.''),
                                current_state := Some (power_state st),
                                current_cpu := Some (vm_cpu_cores v),
                                current_ram_mb := Some (vm_ram v),
                                requested_cpu := Some (or_else cpu (vm_cpu_cores v)),
                                requested_ram_mb := Some (or_else ram (vm_ram v)),
                                hint := Some
                                  ''Set shutdown_if_running=true to automatically shut down the VM, apply changes, and optionally restart it''\<rparr>),
                             w2)
                       else
                         (case powerOffVM B e vmId
                                 \<lparr>wait_timeout = Some wait, force_after_timeout = Some force\<rparr> w2 of
                            (Inl err, w3) \<Rightarrow> (Inl err, w3)
                          | (Inr shutdownResult, w3) \<Rightarrow>
                              if \<not> success shutdownResult
                                 \<and> \<not> (case message shutdownResult of
                                         None \<Rightarrow> False
                                       | Some m \<Rightarrow> includes_str m ''already stopped'')
                              then (Inr (empty_modify
                                      \<lparr>success := False,
                                       error := Some (''Failed to shut down VM ''
                                         @ quoted (vm_name v) @ '': ''
                                         @ with_default ''undefined'' (error shutdownResult)),
                                       shutdown_result := Some shutdownResult\<rparr>), w3)
                              else applyChanges B e vmId cpu ram v st w3)
                     else applyChanges B e vmId cpu ram v st w2)))"

section \<open>What a call does to the outside\<close>

text \<open>
  The claims count backend calls and sleeps. The effects of a trace are its requests
  without their credentials, and its sleeps; the login exchange is left out, since
  whether it happens depends only on the credential cache.
\<close>

datatype effect = Call string string body | Sleep nat

definition call :: "http_req \<Rightarrow> effect" where
  "call q = Call (meth q) (path q) (body q)"

definition effect_of :: "http_req \<Rightarrow> effect list" where
  "effect_of q = (if path q = ''/api/sys/tokens'' then [] else [call q])"

fun effects :: "event list \<Rightarrow> effect list" where
  "effects [] = []"
| "effects (Sent q # evs) = effect_of q @ effects evs"
| "effects (Slept ms # evs) = Sleep ms # effects evs"

definition status_reads :: "nat \<Rightarrow> effect list" where
  "status_reads vid = [call (get_req (vm_path vid)), call (get_req ''/api/v4/machine_status'')]"

definition is_update :: "effect \<Rightarrow> bool" where
  "is_update x = (case x of Call m p b \<Rightarrow> m = ''PUT'' | Sleep n \<Rightarrow> False)"

definition updates :: "event list \<Rightarrow> effect list" where
  "updates evs = filter is_update (effects evs)"

lemma effects_append [simp]: "effects (xs @ ys) = effects xs @ effects ys"
  by (induction xs rule: effects.induct) auto

lemma fetch_effects:
  "effects (trace (snd (fetch B q w))) = effects (trace w) @ effect_of q"
  by (simp add: fetch_def Let_def effect_of_def call_def)

lemma getToken_effects: "effects (trace (snd (getToken B e w))) = effects (trace w)"
  using fetch_effects [of B "login_req e" w]
  by (auto simp: getToken_def Let_def login_req_def effect_of_def split: prod.splits)

lemma request_effects:
  "request B e q w = (res, w') \<Longrightarrow>
   effects (trace w') = effects (trace w) @ (if res = Inl NotConfigured then [] else effect_of q)"
  using getToken_effects [of B e w] fetch_effects [of B q "snd (getToken B e w)"]
  by (auto simp: request_def Let_def getToken_def split: prod.splits sum.splits if_splits)

lemma vm_path_not_login [simp]: "vm_path vid \<noteq> ''/api/sys/tokens''"
  by (simp add: vm_path_def)

lemma effects_get_vm [simp]: "effect_of (get_req (vm_path vid)) = [call (get_req (vm_path vid))]"
  by (simp add: get_req_def effect_of_def)

lemma effects_get_status [simp]:
  "effect_of (get_req ''/api/v4/machine_status'') = [call (get_req ''/api/v4/machine_status'')]"
  by (simp add: get_req_def effect_of_def)

lemma getVMStatus_effects_ok:
  assumes "getVMStatus B e vid w = (Inr st, w')"
  shows "effects (trace w') = effects (trace w) @ status_reads vid"
proof -
  obtain j1 w1 where a: "request B e (get_req (vm_path vid)) w = (Inr j1, w1)"
    using assms by (auto simp: getVMStatus_def split: prod.splits sum.splits)
  obtain j2 where b: "request B e (get_req ''/api/v4/machine_status'') w1 = (Inr j2, w')"
    using assms a by (auto simp: getVMStatus_def split: prod.splits sum.splits option.splits)
  show ?thesis
    using request_effects [OF a] request_effects [OF b] by (simp add: status_reads_def)
qed

lemma getVMStatus_effects:
  assumes "getVMStatus B e vid w = (res, w')"
  shows "\<exists>k. effects (trace w') = effects (trace w) @ take k (status_reads vid)"
proof -
  obtain r1 w1 where a: "request B e (get_req (vm_path vid)) w = (r1, w1)"
    by (cases "request B e (get_req (vm_path vid)) w")
  obtain r2 w2 where b: "request B e (get_req ''/api/v4/machine_status'') w1 = (r2, w2)"
    by (cases "request B e (get_req ''/api/v4/machine_status'') w1")
  have "w' = w1 \<or> w' = w2"
    using assms a b by (auto simp: getVMStatus_def split: prod.splits sum.splits option.splits)
  moreover have "\<exists>k. effects (trace w1) = effects (trace w) @ take k (status_reads vid)"
  proof (cases "r1 = Inl NotConfigured")
    case True
    then show ?thesis using request_effects [OF a] by (intro exI [of _ 0]) simp
  next
    case False
    then show ?thesis using request_effects [OF a]
      by (intro exI [of _ 1]) (simp add: status_reads_def)
  qed
  moreover have "\<exists>k. effects (trace w2) = effects (trace w) @ take k (status_reads vid)"
    if "w' = w2" "w' \<noteq> w1"
  proof -
    have "r1 \<noteq> Inl NotConfigured"
      using assms a b that by (auto simp: getVMStatus_def split: prod.splits sum.splits option.splits)
    then show ?thesis
      using request_effects [OF a] request_effects [OF b]
      by (cases "r2 = Inl NotConfigured")
        (auto simp: status_reads_def intro: exI [of _ 1] exI [of _ 2])
  qed
  ultimately show ?thesis by blast
qed

lemma effect_of_action [simp]: "effect_of (action_req vid a) = [call (action_req vid a)]"
  by (simp add: action_req_def effect_of_def)

lemma vmAction_effects:
  "vmAction B e vid a w = (res, w') \<Longrightarrow>
   effects (trace w') = effects (trace w)
     @ (if res = Inl NotConfigured then [] else [call (action_req vid a)])"
  using request_effects [of B e "action_req vid a" w res w'] by (simp add: vmAction_def)

lemma sleep_effects [simp]: "effects (trace (sleep ms w)) = effects (trace w) @ [Sleep ms]"
  by (simp add: sleep_def)

definition poll_round :: "nat \<Rightarrow> effect list" where
  "poll_round vid = Sleep pollInterval # status_reads vid"

lemma poll_effects_ok:
  "poll B e vid s mw w = (Inr r, w') \<Longrightarrow>
   \<exists>n. effects (trace w') = effects (trace w) @ concat (replicate n (poll_round vid))"
proof (induction B e vid s mw w rule: poll.induct)
  case (1 B e vid s mw w)
  show ?case
  proof (cases "int (now w) - int s < mw")
    case False
    then have "w' = w" using "1.prems" by (simp add: poll.simps)
    then show ?thesis by (intro exI [of _ 0]) simp
  next
    case True
    obtain x w1 where g: "getVMStatus B e vid (sleep pollInterval w) = (x, w1)"
      by (cases "getVMStatus B e vid (sleep pollInterval w)")
    then obtain cs where x: "x = Inr cs"
      using "1.prems" True by (cases x) (auto simp: poll.simps)
    have e1: "effects (trace w1) = effects (trace w) @ poll_round vid"
      using getVMStatus_effects_ok [OF g [unfolded x]] by (simp add: poll_round_def)
    show ?thesis
    proof (cases "running cs")
      case False
      then have "w' = w1" using "1.prems" True g x by (simp add: poll.simps)
      then show ?thesis using e1 by (intro exI [of _ 1]) simp
    next
      case r: True
      then have "poll B e vid s mw w1 = (Inr r, w')"
        using "1.prems" True g x by (simp add: poll.simps)
      with "1.IH" [of x w1 cs] True g x r
      obtain n where "effects (trace w') = effects (trace w1) @ concat (replicate n (poll_round vid))"
        by auto
      then show ?thesis using e1 by (intro exI [of _ "Suc n"]) simp
    qed
  qed
qed

lemma filter_take_none: "\<forall>x\<in>set xs. \<not> P x \<Longrightarrow> filter P (take k xs) = []"
  by (auto simp: filter_empty_conv dest: in_set_takeD)

lemma status_reads_no_update: "\<forall>x\<in>set (status_reads vid). \<not> is_update x"
  by (simp add: status_reads_def is_update_def call_def get_req_def)

lemma getVMStatus_updates:
  "getVMStatus B e vid w = (res, w') \<Longrightarrow> updates (trace w') = updates (trace w)"
  using getVMStatus_effects [of B e vid w res w'] filter_take_none [OF status_reads_no_update]
  by (auto simp: updates_def)

lemma vmAction_updates:
  "vmAction B e vid a w = (res, w') \<Longrightarrow> updates (trace w') = updates (trace w)"
  using vmAction_effects [of B e vid a w res w']
  by (auto simp: updates_def is_update_def call_def action_req_def)

lemma sleep_updates [simp]: "updates (trace (sleep ms w)) = updates (trace w)"
  by (simp add: updates_def is_update_def)

lemma poll_updates:
  "poll B e vid s mw w = (res, w') \<Longrightarrow> updates (trace w') = updates (trace w)"
proof (induction B e vid s mw w rule: poll.induct)
  case (1 B e vid s mw w)
  show ?case
  proof (cases "int (now w) - int s < mw")
    case False
    then show ?thesis using "1.prems" by (simp add: poll.simps)
  next
    case True
    obtain x w1 where g: "getVMStatus B e vid (sleep pollInterval w) = (x, w1)"
      by (cases "getVMStatus B e vid (sleep pollInterval w)")
    have u1: "updates (trace w1) = updates (trace w)"
      using getVMStatus_updates [OF g] by simp
    show ?thesis
    proof (cases "\<exists>cs. x = Inr cs \<and> running cs")
      case False
      then have "w' = w1"
        using "1.prems" True g by (cases x) (auto simp: poll.simps)
      then show ?thesis using u1 by simp
    next
      case True
      then obtain cs where x: "x = Inr cs" and r: "running cs" by blast
      then have "poll B e vid s mw w1 = (res, w')"
        using "1.prems" \<open>int (now w) - int s < mw\<close> g by (simp add: poll.simps)
      with "1.IH" [of x w1 cs] \<open>int (now w) - int s < mw\<close> g x r
      show ?thesis using u1 by simp
    qed
  qed
qed

lemma powerOffVM_updates:
  "powerOffVM B e vid opts w = (res, w') \<Longrightarrow> updates (trace w') = updates (trace w)"
  by (auto simp: powerOffVM_def Let_def
      split: prod.splits sum.splits option.splits if_splits
      dest!: getVMStatus_updates vmAction_updates poll_updates)

subsection \<open>Update requests of \<^verbatim>\<open>modifyVM\<close>\<close>

lemma get_req_no_update [simp]: "\<not> is_update (call (get_req p))"
  by (simp add: is_update_def call_def get_req_def)

lemma put_req_update [simp]: "is_update (call (put_req vmId ch))"
  by (simp add: is_update_def call_def put_req_def)

lemma effect_of_put [simp]: "effect_of (put_req vmId ch) = [call (put_req vmId ch)]"
  by (simp add: put_req_def effect_of_def)

lemma getVM_updates:
  "getVM B e vid w = (res, w') \<Longrightarrow> updates (trace w') = updates (trace w)"
proof -
  assume a: "getVM B e vid w = (res, w')"
  obtain r1 w1 where r1: "request B e (get_req (vm_path vid)) w = (r1, w1)"
    by (cases "request B e (get_req (vm_path vid)) w")
  obtain r2 w2 where r2: "request B e (get_req ''/api/v4/machine_status'') w1 = (r2, w2)"
    by (cases "request B e (get_req ''/api/v4/machine_status'') w1")
  have "w' = w2"
    using a r1 r2 by (auto simp: getVM_def Let_def split: sum.splits option.splits)
  then show ?thesis
    using request_effects [OF r1] request_effects [OF r2]
    by (auto simp: updates_def)
qed

lemma applyChanges_updates:
  "applyChanges B e vmId cpu ram v st w = (res, w') \<Longrightarrow>
   updates (trace w') = updates (trace w)
     @ (if res = Inl NotConfigured then [] else [call (put_req vmId (changes_of cpu ram))])"
proof -
  assume a: "applyChanges B e vmId cpu ram v st w = (res, w')"
  obtain r1 w1 where r1: "request B e (put_req vmId (changes_of cpu ram)) w = (r1, w1)"
    by (cases "request B e (put_req vmId (changes_of cpu ram)) w")
  have "w' = w1" "res = Inl NotConfigured \<longleftrightarrow> r1 = Inl NotConfigured"
    using a r1 by (auto simp: applyChanges_def split: sum.splits)
  then show ?thesis
    using request_effects [OF r1]
    by (auto simp: updates_def)
qed

lemma modifyVM_updates:
  assumes "modifyVM B e vmId options w = (res, w')"
  shows "\<exists>us. updates (trace w') = updates (trace w) @ us
          \<and> (us = [] \<or> us = [call (put_req vmId (changes_of (cpu_cores options) (ram_mb options)))])
          \<and> ((\<exists>r. res = Inr r \<and> success r) \<longrightarrow> us \<noteq> [])"
  using assms
  by (auto simp: modifyVM_def Let_def empty_modify_def
      split: prod.splits sum.splits option.splits if_splits
      dest!: getVM_updates getVMStatus_updates powerOffVM_updates applyChanges_updates)

section \<open>Fake backends for the scenarios\<close>

text \<open>
  The backend of the spec's scenarios: it serves one VM under the given id, answers the
  status list with one row for the VM's machine whose \<open>running\<close> flag is a function
  of the history and the clock, hands out the token \<open>k1\<close> at login, and accepts
  every other request. Responses take no time on the clock (simulated time).
\<close>

definition ok_resp :: "json \<Rightarrow> http_resp" where
  "ok_resp j = \<lparr>status = 200, text_of = [], json_of = j, took = 0\<rparr>"

definition fake_backend :: "nat \<Rightarrow> vm \<Rightarrow> (event list \<Rightarrow> nat \<Rightarrow> bool) \<Rightarrow> backend" where
  "fake_backend vid v run h t q =
     (if path q = vm_path vid then ok_resp (JVm v)
      else if path q = ''/api/v4/machine_status''
      then ok_resp (JStatusList
             [\<lparr>ms_machine = vm_machine v, ms_running = run h t,
               ms_status = (if run h t then ''running'' else ''stopped''),
               ms_status_info = [], ms_migratable = True\<rparr>])
      else if path q = ''/api/sys/tokens'' then ok_resp (JKey ''k1'')
      else ok_resp JOther)"

definition web_vm :: vm where
  "web_vm = \<lparr>vm_name = ''web'', vm_machine = 30, vm_cpu_cores = 2, vm_ram = 4096\<rparr>"

definition admin_env :: env where
  "admin_env = \<lparr>VERGEOS_USER = ''admin'', VERGEOS_PASS = ''secret'', VERGEOS_TOKEN = []\<rparr>"

definition modify_opts :: "int option \<Rightarrow> int option \<Rightarrow> bool option \<Rightarrow> modify_options" where
  "modify_opts cpu ram sd =
     \<lparr>wait_timeout = None, force_after_timeout = None, cpu_cores = cpu, ram_mb = ram,
      shutdown_if_running = sd\<rparr>"

section \<open>Properties of the reconfiguration workflow\<close>

text \<open>
  Claim C7. A reconfiguration request in which both \<^verbatim>\<open>cpu_cores\<close> and
  \<^verbatim>\<open>ram_mb\<close> are absent fails at once with the validation error, and the world comes
  back as it was: no request was sent (no read, no write), the clock and the credential
  cache are untouched.
\<close>

theorem modify_without_fields_rejected:
  assumes "cpu_cores options = None" and "ram_mb options = None"
  shows "modifyVM B e vmId options w =
           (Inr (empty_modify\<lparr>success := False,
                   error := Some ''Must specify cpu_cores and/or ram_mb to modify''\<rparr>), w)"
  using assms by (simp add: modifyVM_def truthy_num_def)

text \<open>The theorem at a request with neither field, on a fresh HTTP-server client.\<close>

theorem modify_without_fields_rejected_witness:
  "modifyVM (fake_backend 3 web_vm (\<lambda>h t. True)) admin_env 3
      (modify_opts None None (Some True)) (constructor_http admin_env 0) =
     (Inr (empty_modify\<lparr>success := False,
             error := Some ''Must specify cpu_cores and/or ram_mb to modify''\<rparr>),
      \<lparr>now = 0, token = None, trace = []\<rparr>)"
  using modify_without_fields_rejected
    [of "modify_opts None None (Some True)" "fake_backend 3 web_vm (\<lambda>h t. True)" admin_env 3
      "constructor_http admin_env 0"]
  by (simp add: modify_opts_def constructor_http_def)

lemma show_nat_digit: "n < 10 \<Longrightarrow> show_nat n = [''0123456789'' ! n]"
  by (simp add: show_nat.simps)

lemmas client_defs =
  request_def getToken_def fetch_def Let_def login_req_def get_req_def action_req_def
  put_req_def vm_path_def show_nat_digit ok_def truthy_def dollar_key_def as_vm_def
  as_statuses_def vmAction_def sleep_def pollInterval_def

lemmas fixture_defs =
  fake_backend_def ok_resp_def web_vm_def admin_env_def modify_opts_def
  constructor_http_def constructor_stdio_def

text \<open>
  Claim C8. When something was requested, the VM and its status were read, the VM is
  running and \<^verbatim>\<open>shutdown_if_running\<close> is false or absent, \<^verbatim>\<open>modifyVM\<close> returns
  a failure object with the current CPU and RAM values, the requested values (a field
  that was not requested falls back to the current value), and the hint that names
  \<^verbatim>\<open>shutdown_if_running\<close>; it returns in the world right after the two reads, and no
  update request (PUT) has been added to the trace.
\<close>

theorem modify_running_needs_flag:
  assumes "truthy_num (cpu_cores options) \<or> truthy_num (ram_mb options)"
    and "with_default False (shutdown_if_running options) = False"
    and "getVM B e vmId w = (Inr v, w1)"
    and "getVMStatus B e vmId w1 = (Inr st, w2)"
    and "running st"
  shows "\<exists>r. modifyVM B e vmId options w = (Inr r, w2)
           \<and> success r = False
           \<and> current_state r = Some (power_state st)
           \<and> current_cpu r = Some (vm_cpu_cores v)
           \<and> current_ram_mb r = Some (vm_ram v)
           \<and> requested_cpu r = Some (or_else (cpu_cores options) (vm_cpu_cores v))
           \<and> requested_ram_mb r = Some (or_else (ram_mb options) (vm_ram v))
           \<and> hint r = Some ''Set shutdown_if_running=true to automatically shut down the VM, apply changes, and optionally restart it''
           \<and> updates (trace w2) = updates (trace w)"
proof -
  have "updates (trace w2) = updates (trace w)"
    using getVM_updates [OF assms(3)] getVMStatus_updates [OF assms(4)] by simp
  then show ?thesis
    using assms by (auto simp: modifyVM_def Let_def empty_modify_def)
qed

text \<open>
  The spec's scenario: \<^verbatim>\<open>modify(3, {ram_mb: 8192, shutdown_if_running: false})\<close>
  on a running VM 3 with 2 cores and 4096 MB.
\<close>

theorem modify_running_needs_flag_witness:
  "\<exists>r w'. modifyVM (fake_backend 3 web_vm (\<lambda>h t. True)) admin_env 3
              (modify_opts None (Some 8192) (Some False)) (constructor_http admin_env 0)
            = (Inr r, w')
         \<and> success r = False
         \<and> current_cpu r = Some 2 \<and> current_ram_mb r = Some 4096
         \<and> requested_cpu r = Some 2 \<and> requested_ram_mb r = Some 8192
         \<and> updates (trace w') = []"
proof -
  let ?B = "fake_backend 3 web_vm (\<lambda>h t. True)"
  let ?w = "constructor_http admin_env 0"
  let ?o = "modify_opts None (Some 8192) (Some False)"
  let ?x1 = "getVM ?B admin_env 3 ?w"
  let ?x2 = "getVMStatus ?B admin_env 3 (snd ?x1)"
  have a: "?x1 = (Inr (projr (fst ?x1)), snd ?x1)"
    by (simp add: getVM_def client_defs fixture_defs)
  have v: "vm_cpu_cores (projr (fst ?x1)) = 2" "vm_ram (projr (fst ?x1)) = 4096"
    by (simp_all add: getVM_def client_defs fixture_defs vm.defs)
  have b: "?x2 = (Inr (projr (fst ?x2)), snd ?x2)"
    by (simp add: getVM_def getVMStatus_def client_defs fixture_defs)
  have r: "running (projr (fst ?x2))"
    by (simp add: getVM_def getVMStatus_def client_defs fixture_defs)
  have c: "truthy_num (cpu_cores ?o) \<or> truthy_num (ram_mb ?o)"
    by (simp add: modify_opts_def truthy_num_def)
  have d: "with_default False (shutdown_if_running ?o) = False"
    by (simp add: modify_opts_def with_default_def)
  have u: "updates (trace ?w) = []"
    by (simp add: constructor_http_def updates_def)
  show ?thesis
    using modify_running_needs_flag [OF c d a b r] v u
    by (auto simp: modify_opts_def or_else_def)
qed

lemma changes_of_keys:
  "map_of (changes_of cpu ram) ''cpu_cores'' = (if truthy_num cpu then cpu else None)
   \<and> map_of (changes_of cpu ram) ''ram'' = (if truthy_num ram then ram else None)
   \<and> fst ` set (changes_of cpu ram) \<subseteq> {''cpu_cores'', ''ram''}"
  by (auto simp: changes_of_def truthy_num_def split: option.splits)

lemma changes_of_nonzero: "0 \<notin> snd ` set (changes_of cpu ram)"
  by (auto simp: changes_of_def truthy_num_def split: option.splits)

text \<open>
  Claim C9. Whatever \<^verbatim>\<open>modifyVM\<close> returns, it has added to the trace either no
  update request or exactly one, a PUT to \<^verbatim>\<open>/api/v4/vms/{id}\<close> whose body is the
  \<^verbatim>\<open>changes\<close> object; when it returns success it has sent exactly one. The body has
  the key \<^verbatim>\<open>cpu_cores\<close> exactly when a (truthy) \<^verbatim>\<open>cpu_cores\<close> was requested, with
  the requested value, the key \<^verbatim>\<open>ram\<close> exactly when a (truthy) \<^verbatim>\<open>ram_mb\<close> was
  requested, and no other key.
\<close>

theorem modify_sends_only_requested_fields:
  assumes "modifyVM B e vmId options w = (res, w')"
  shows "(\<exists>us. updates (trace w') = updates (trace w) @ us
            \<and> (us = [] \<or> us = [Call ''PUT'' (''/api/v4/vms/'' @ show_nat vmId)
                                  (ChangesBody (changes_of (cpu_cores options) (ram_mb options)))])
            \<and> ((\<exists>r. res = Inr r \<and> success r) \<longrightarrow> us \<noteq> []))
       \<and> map_of (changes_of (cpu_cores options) (ram_mb options)) ''cpu_cores''
           = (if truthy_num (cpu_cores options) then cpu_cores options else None)
       \<and> map_of (changes_of (cpu_cores options) (ram_mb options)) ''ram''
           = (if truthy_num (ram_mb options) then ram_mb options else None)
       \<and> fst ` set (changes_of (cpu_cores options) (ram_mb options)) \<subseteq> {''cpu_cores'', ''ram''}"
  using modifyVM_updates [OF assms] changes_of_keys [of "cpu_cores options" "ram_mb options"]
  by (simp add: call_def put_req_def)

text \<open>Only \<^verbatim>\<open>cpu_cores: 4\<close> requested for the stopped VM 3: one PUT, with no RAM key.\<close>

theorem modify_sends_only_requested_fields_witness:
  "updates (trace (snd (modifyVM (fake_backend 3 web_vm (\<lambda>h t. False)) admin_env 3
      (modify_opts (Some 4) None None) (constructor_http admin_env 0))))
   = [Call ''PUT'' ''/api/v4/vms/3'' (ChangesBody [(''cpu_cores'', 4)])]"
proof -
  let ?B = "fake_backend 3 web_vm (\<lambda>h t. False)"
  let ?w = "constructor_http admin_env 0"
  let ?o = "modify_opts (Some 4) None None"
  let ?x = "modifyVM ?B admin_env 3 ?o ?w"
  have a: "?x = (fst ?x, snd ?x)" by simp
  have s: "\<exists>r. fst ?x = Inr r \<and> success r"
    by (simp add: modifyVM_def applyChanges_def getVM_def getVMStatus_def client_defs
        fixture_defs with_default_def truthy_num_def changes_of_def empty_modify_def)
  have u: "updates (trace ?w) = []"
    by (simp add: constructor_http_def updates_def)
  have c: "changes_of (cpu_cores ?o) (ram_mb ?o) = [(''cpu_cores'', 4)]"
    by (simp add: modify_opts_def changes_of_def truthy_num_def)
  show ?thesis
    using modify_sends_only_requested_fields [OF a] s u c
    by (auto simp: show_nat_digit)
qed

lemma truthy_num_zero: "truthy_num (Some 0) = truthy_num None"
  by (simp add: truthy_num_def)

lemma or_else_zero: "or_else (Some 0) d = or_else None d"
  by (simp add: or_else_def)

lemma changes_of_zero:
  "changes_of (Some 0) ram = changes_of None ram"
  "changes_of cpu (Some 0) = changes_of cpu None"
  by (simp_all add: changes_of_def truthy_num_def)

lemma applyChanges_zero:
  "applyChanges B e vmId (Some 0) ram v st w = applyChanges B e vmId None ram v st w"
  "applyChanges B e vmId cpu (Some 0) v st w = applyChanges B e vmId cpu None v st w"
  by (simp_all add: applyChanges_def changes_of_zero or_else_zero split: prod.splits sum.splits)

text \<open>
  Claim C10. Presence is tested by truthiness, so a zero counts as an absent field:
  a call with \<^verbatim>\<open>cpu_cores = 0\<close> and \<^verbatim>\<open>ram_mb = 0\<close> is rejected by the validation
  check without touching the world; \<^verbatim>\<open>modifyVM\<close> with a field set to 0 is, result and
  world, \<^verbatim>\<open>modifyVM\<close> with that field absent; and no update body that a call of
  \<^verbatim>\<open>modifyVM\<close> sends carries the value 0.
\<close>

theorem modify_zero_is_absent:
  assumes "modifyVM B e vmId options w = (res, w')"
  shows "modifyVM B e vmId (options\<lparr>cpu_cores := Some 0, ram_mb := Some 0\<rparr>) w
           = (Inr (empty_modify\<lparr>success := False,
                     error := Some ''Must specify cpu_cores and/or ram_mb to modify''\<rparr>), w)
       \<and> modifyVM B e vmId (options\<lparr>cpu_cores := Some 0\<rparr>) w
           = modifyVM B e vmId (options\<lparr>cpu_cores := None\<rparr>) w
       \<and> modifyVM B e vmId (options\<lparr>ram_mb := Some 0\<rparr>) w
           = modifyVM B e vmId (options\<lparr>ram_mb := None\<rparr>) w
       \<and> (\<exists>us. updates (trace w') = updates (trace w) @ us
              \<and> (\<forall>m p ch. Call m p (ChangesBody ch) \<in> set us \<longrightarrow> 0 \<notin> snd ` set ch))"
proof -
  have 1: "modifyVM B e vmId (options\<lparr>cpu_cores := Some 0, ram_mb := Some 0\<rparr>) w
           = (Inr (empty_modify\<lparr>success := False,
                     error := Some ''Must specify cpu_cores and/or ram_mb to modify''\<rparr>), w)"
    by (simp add: modifyVM_def truthy_num_def)
  have 2: "modifyVM B e vmId (options\<lparr>cpu_cores := Some 0\<rparr>) w
           = modifyVM B e vmId (options\<lparr>cpu_cores := None\<rparr>) w"
    by (simp add: modifyVM_def Let_def applyChanges_zero truthy_num_zero or_else_zero
        split: prod.splits sum.splits)
  have 3: "modifyVM B e vmId (options\<lparr>ram_mb := Some 0\<rparr>) w
           = modifyVM B e vmId (options\<lparr>ram_mb := None\<rparr>) w"
    by (simp add: modifyVM_def Let_def applyChanges_zero truthy_num_zero or_else_zero
        split: prod.splits sum.splits)
  obtain us where us: "updates (trace w') = updates (trace w) @ us"
    "us = [] \<or> us = [call (put_req vmId (changes_of (cpu_cores options) (ram_mb options)))]"
    using modifyVM_updates [OF assms] by blast
  have "\<forall>m p ch. Call m p (ChangesBody ch) \<in> set us \<longrightarrow> 0 \<notin> snd ` set ch"
    using us(2) changes_of_nonzero [of "cpu_cores options" "ram_mb options"]
    by (auto simp: call_def put_req_def)
  with 1 2 3 us(1) show ?thesis by blast
qed

text \<open>
  \<^verbatim>\<open>cpu_cores: 0, ram_mb: 2048\<close> on the stopped VM 3 sends only the RAM key;
  \<^verbatim>\<open>cpu_cores: 0, ram_mb: 0\<close> is rejected.
\<close>

theorem modify_zero_is_absent_witness:
  "updates (trace (snd (modifyVM (fake_backend 3 web_vm (\<lambda>h t. False)) admin_env 3
      (modify_opts (Some 0) (Some 2048) None) (constructor_http admin_env 0))))
   = [Call ''PUT'' ''/api/v4/vms/3'' (ChangesBody [(''ram'', 2048)])]
   \<and> fst (modifyVM (fake_backend 3 web_vm (\<lambda>h t. False)) admin_env 3
      (modify_opts (Some 0) (Some 0) None) (constructor_http admin_env 0))
   = Inr (empty_modify\<lparr>success := False,
             error := Some ''Must specify cpu_cores and/or ram_mb to modify''\<rparr>)"
proof -
  let ?B = "fake_backend 3 web_vm (\<lambda>h t. False)"
  let ?w = "constructor_http admin_env 0"
  let ?o = "modify_opts (Some 0) (Some 2048) None"
  let ?x = "modifyVM ?B admin_env 3 ?o ?w"
  have a: "?x = (fst ?x, snd ?x)" by simp
  have e: "updates (trace (snd ?x))
           = [Call ''PUT'' ''/api/v4/vms/3'' (ChangesBody [(''ram'', 2048)])]"
    by (simp add: modifyVM_def applyChanges_def getVM_def getVMStatus_def client_defs
        fixture_defs with_default_def truthy_num_def changes_of_def empty_modify_def
        updates_def effect_of_def call_def is_update_def)
  have o: "?o\<lparr>cpu_cores := Some 0, ram_mb := Some 0\<rparr> = modify_opts (Some 0) (Some 0) None"
    by (simp add: modify_opts_def)
  show ?thesis
    using modify_zero_is_absent [OF a] e o by simp
qed

section \<open>Properties of the power-state controller\<close>

definition power_opts :: "int option \<Rightarrow> bool option \<Rightarrow> power_options" where
  "power_opts wt f = \<lparr>wait_timeout = wt, force_after_timeout = f\<rparr>"

definition db_vm :: vm where
  "db_vm = \<lparr>vm_name = ''db'', vm_machine = 70, vm_cpu_cores = 4, vm_ram = 8192\<rparr>"

text \<open>
  Claim C5. When the status read at the start of \<^verbatim>\<open>powerOffVM\<close> reports the VM as not
  running, the call returns success with \<^verbatim>\<open>current_state\<close> and
  \<^verbatim>\<open>was_running: false\<close> in the world right after that read: the only effects are the
  two GETs of the status read, so no shutdown action was sent and the polling loop (which
  starts with a sleep) was not entered. This holds for every such call, so repeating the
  call on a stopped VM repeats only the read.
\<close>

theorem powerOff_stopped_is_noop:
  assumes "getVMStatus B e vid w = (Inr st, w1)" and "\<not> running st"
  shows "powerOffVM B e vid options w =
           (Inr (empty_power
              \<lparr>success := True,
               message := Some (''VM '' @ quoted (name st) @ '' is already stopped''),
               current_state := Some (power_state st),
               was_running := Some False\<rparr>), w1)
       \<and> effects (trace w1) = effects (trace w)
            @ [Call ''GET'' (vm_path vid) NoBody, Call ''GET'' ''/api/v4/machine_status'' NoBody]"
  using assms getVMStatus_effects_ok [OF assms(1)]
  by (simp add: powerOffVM_def Let_def status_reads_def call_def get_req_def)

text \<open>The stopped VM 7, asked to power off with a wait of 60 s and force.\<close>

theorem powerOff_stopped_is_noop_witness:
  "\<exists>r w'. powerOffVM (fake_backend 7 db_vm (\<lambda>h t. False)) admin_env 7
        (power_opts (Some 60) (Some True)) (constructor_http admin_env 0) = (Inr r, w')
     \<and> success r \<and> was_running r = Some False \<and> current_state r = Some ''stopped''
     \<and> effects (trace w')
         = [Call ''GET'' ''/api/v4/vms/7?fields=most'' NoBody,
            Call ''GET'' ''/api/v4/machine_status'' NoBody]"
proof -
  let ?B = "fake_backend 7 db_vm (\<lambda>h t. False)"
  let ?w = "constructor_http admin_env 0"
  let ?x = "getVMStatus ?B admin_env 7 ?w"
  have a: "?x = (Inr (projr (fst ?x)), snd ?x)"
    by (simp add: getVMStatus_def client_defs fixture_defs db_vm_def)
  have r: "\<not> running (projr (fst ?x))" and p: "power_state (projr (fst ?x)) = ''stopped''"
    by (simp_all add: getVMStatus_def client_defs fixture_defs db_vm_def)
  have u: "effects (trace ?w) = []"
    by (simp add: constructor_http_def)
  show ?thesis
    using powerOff_stopped_is_noop [OF a r, of "power_opts (Some 60) (Some True)"] p u
    by (simp add: empty_power_def vm_path_def show_nat_digit)
qed

text \<open>The forced stop, as an effect.\<close>

definition kill_call :: "nat \<Rightarrow> effect" where
  "kill_call vid = Call ''POST'' ''/api/v4/vm_actions'' (ActionBody vid ''kill'')"

lemma kill_not_in_round: "count_list (concat (replicate n (poll_round vid))) (kill_call vid) = 0"
  by (induction n) (simp_all add: poll_round_def status_reads_def call_def get_req_def kill_call_def)

text \<open>
  Claim C4. Take a call of \<^verbatim>\<open>powerOffVM\<close> with a positive wait and
  \<^verbatim>\<open>force_after_timeout = true\<close> in which the VM was running, the graceful
  \<^verbatim>\<open>poweroff\<close> was accepted and the polling loop ended on the clock (\<open>Inr None\<close>),
  and let the backend accept the \<^verbatim>\<open>kill\<close> and answer the last status read with any
  status \<open>fin\<close>, running or not. Then the call returns success with
  \<^verbatim>\<open>forced: true\<close> and \<^verbatim>\<open>final_state\<close> the state of \<open>fin\<close>; after the loop its
  effects are exactly the \<^verbatim>\<open>kill\<close> action, a sleep of 2000 ms and the two GETs of one
  status read; and the whole call has added exactly one \<^verbatim>\<open>kill\<close> to the trace.
\<close>

theorem powerOff_timeout_forces:
  assumes "getVMStatus B e vid w = (Inr st, w1)" and "running st"
    and "vmAction B e vid ''poweroff'' w1 = (Inr j, w2)"
    and "wait_timeout options = Some wait" and "0 < wait"
    and "force_after_timeout options = Some True"
    and "poll B e vid (now w2) (maxWait wait) w2 = (Inr None, w3)"
    and "vmAction B e vid ''kill'' w3 = (Inr j', w4)"
    and "getVMStatus B e vid (sleep 2000 w4) = (Inr fin, w5)"
  shows "\<exists>r. powerOffVM B e vid options w = (Inr r, w5)
           \<and> success r \<and> forced r = Some True \<and> error r = None
           \<and> final_state r = Some (power_state fin)
           \<and> effects (trace w5) = effects (trace w3)
                @ [Call ''POST'' ''/api/v4/vm_actions'' (ActionBody vid ''kill''), Sleep 2000,
                   Call ''GET'' (vm_path vid) NoBody,
                   Call ''GET'' ''/api/v4/machine_status'' NoBody]
           \<and> count_list (effects (trace w5))
                  (Call ''POST'' ''/api/v4/vm_actions'' (ActionBody vid ''kill''))
               = count_list (effects (trace w))
                  (Call ''POST'' ''/api/v4/vm_actions'' (ActionBody vid ''kill'')) + 1"
proof -
  have r: "powerOffVM B e vid options w =
      (Inr (empty_power
         \<lparr>success := True,
          message := Some (''VM '' @ quoted (name st) @ '' did not shut down within ''
                           @ show_int wait @ ''s - forced power off''),
          final_state := Some (power_state fin),
          forced := Some True,
          elapsed_seconds := Some (elapsed (now w2) w5)\<rparr>), w5)"
    using assms by (simp add: powerOffVM_def Let_def with_default_def)
  have e1: "effects (trace w1) = effects (trace w) @ status_reads vid"
    by (rule getVMStatus_effects_ok [OF assms(1)])
  have e2: "effects (trace w2) = effects (trace w1) @ [call (action_req vid ''poweroff'')]"
    using vmAction_effects [OF assms(3)] by simp
  obtain n where e3: "effects (trace w3) = effects (trace w2) @ concat (replicate n (poll_round vid))"
    using poll_effects_ok [OF assms(7)] by blast
  have e4: "effects (trace w4) = effects (trace w3) @ [call (action_req vid ''kill'')]"
    using vmAction_effects [OF assms(8)] by simp
  have e5: "effects (trace w5) = effects (trace w4) @ Sleep 2000 # status_reads vid"
    using getVMStatus_effects_ok [OF assms(9)] by simp
  have k: "call (action_req vid ''kill'') = kill_call vid"
    by (simp add: call_def action_req_def kill_call_def)
  have c: "count_list (effects (trace w5)) (kill_call vid)
           = count_list (effects (trace w)) (kill_call vid) + 1"
    using kill_not_in_round [of n vid]
    by (simp add: e1 e2 e3 e4 e5 k)
      (simp add: status_reads_def call_def get_req_def action_req_def kill_call_def)
  show ?thesis
    using r c e4 e5
    by (simp add: empty_power_def status_reads_def call_def get_req_def action_req_def
        kill_call_def)
qed

text \<open>
  VM 7 never stops, not even after the kill: \<^verbatim>\<open>powerOff(7, 6, true)\<close> is a forced
  success with one kill, and the final state still reads \<^verbatim>\<open>running\<close>.
\<close>

theorem powerOff_timeout_forces_witness:
  "\<exists>r w'. powerOffVM (fake_backend 7 db_vm (\<lambda>h t. True)) admin_env 7
        (power_opts (Some 6) (Some True)) (constructor_http admin_env 0) = (Inr r, w')
     \<and> success r \<and> forced r = Some True \<and> final_state r = Some ''running''
     \<and> count_list (effects (trace w'))
           (Call ''POST'' ''/api/v4/vm_actions'' (ActionBody 7 ''kill'')) = 1"
proof -
  let ?B = "fake_backend 7 db_vm (\<lambda>h t. True)"
  let ?e = admin_env
  let ?w = "constructor_http admin_env 0"
  let ?o = "power_opts (Some 6) (Some True)"
  let ?x1 = "getVMStatus ?B ?e 7 ?w"
  let ?x2 = "vmAction ?B ?e 7 ''poweroff'' (snd ?x1)"
  let ?x3 = "poll ?B ?e 7 (now (snd ?x2)) (maxWait 6) (snd ?x2)"
  let ?x4 = "vmAction ?B ?e 7 ''kill'' (snd ?x3)"
  let ?x5 = "getVMStatus ?B ?e 7 (sleep 2000 (snd ?x4))"
  note ev = getVMStatus_def client_defs fixture_defs db_vm_def poll.simps maxWait_def
  have a: "?x1 = (Inr (projr (fst ?x1)), snd ?x1)" and r: "running (projr (fst ?x1))"
    by (simp_all add: ev)
  have b: "?x2 = (Inr (projr (fst ?x2)), snd ?x2)"
    by (simp add: ev)
  have c: "?x3 = (Inr None, snd ?x3)"
    by (simp add: ev)
  have d: "?x4 = (Inr (projr (fst ?x4)), snd ?x4)"
    by (simp add: ev)
  have f: "?x5 = (Inr (projr (fst ?x5)), snd ?x5)"
    and p: "power_state (projr (fst ?x5)) = ''running''"
    by (simp_all add: ev)
  have o: "wait_timeout ?o = Some 6" "force_after_timeout ?o = Some True" "(0::int) < 6"
    by (simp_all add: power_opts_def)
  have u: "effects (trace ?w) = []"
    by (simp add: constructor_http_def)
  show ?thesis
    using powerOff_timeout_forces [OF a r b o(1) o(3) o(2) c d f] p u
    by auto
qed

section \<open>Properties of the backend client\<close>

subsection \<open>Which credential is used\<close>

text \<open>An environment that sets the user/password pair and a static token.\<close>

definition both_env :: env where
  "both_env = \<lparr>VERGEOS_USER = ''admin'', VERGEOS_PASS = ''secret'', VERGEOS_TOKEN = ''t0''\<rparr>"

text \<open>
  Claim C3 says that with both supplied the pair wins and is exchanged at the login
  endpoint. The stdio server does the opposite: its constructor caches the static token,
  so \<^verbatim>\<open>getToken\<close> returns it and sends nothing, and the first request carries the
  static token as its cookie.
\<close>

theorem credential_pair_first_counterexample:
  "getToken (fake_backend 7 db_vm (\<lambda>h t. True)) both_env (constructor_stdio both_env 0)
     = (Inr (Some ''t0''), \<lparr>now = 0, token = Some ''t0'', trace = []\<rparr>)
   \<and> trace (snd (request (fake_backend 7 db_vm (\<lambda>h t. True)) both_env
                  (get_req ''/api/v4/vms?fields=most'') (constructor_stdio both_env 0)))
     = [Sent \<lparr>meth = ''GET'', path = ''/api/v4/vms?fields=most'', authorization = None,
              cookie = Some ''t0'', body = NoBody\<rparr>]"
  by (simp add: client_defs fixture_defs both_env_def)

text \<open>
  Claim C3, amended. In the stdio server a static token, when set, is the credential:
  \<^verbatim>\<open>getToken\<close> returns it without contacting the login endpoint, whatever the
  user/password pair is, and a request carries it as the cookie. The pair is exchanged at
  the login endpoint only when no static token is set; the \<^verbatim>\<open>$key\<close> of the answer is
  then cached.
\<close>

theorem stdio_static_token_first:
  "(VERGEOS_TOKEN e \<noteq> [] \<longrightarrow>
      getToken B e (constructor_stdio e t) = (Inr (Some (VERGEOS_TOKEN e)), constructor_stdio e t)
      \<and> (authorization q = None \<longrightarrow>
           trace (snd (request B e q (constructor_stdio e t)))
             = [Sent (q\<lparr>cookie := Some (VERGEOS_TOKEN e)\<rparr>)]))
   \<and> (VERGEOS_TOKEN e = [] \<and> VERGEOS_USER e \<noteq> [] \<and> VERGEOS_PASS e \<noteq> [] \<longrightarrow>
      trace (snd (getToken B e (constructor_stdio e t))) = [Sent (login_req e)]
      \<and> token (snd (getToken B e (constructor_stdio e t)))
           = dollar_key (json_of (B [] t (login_req e))))"
  by (simp add: getToken_def request_def fetch_def Let_def truthy_def constructor_stdio_def
      login_req_def)

text \<open>Both parts at concrete environments: one with both, one with the pair only.\<close>

theorem stdio_static_token_first_witness:
  "getToken (fake_backend 7 db_vm (\<lambda>h t. True)) both_env (constructor_stdio both_env 0)
     = (Inr (Some ''t0''), constructor_stdio both_env 0)
   \<and> trace (snd (getToken (fake_backend 7 db_vm (\<lambda>h t. True)) admin_env
                  (constructor_stdio admin_env 0)))
     = [Sent (login_req admin_env)]
   \<and> token (snd (getToken (fake_backend 7 db_vm (\<lambda>h t. True)) admin_env
                  (constructor_stdio admin_env 0)))
     = Some ''k1''"
  using stdio_static_token_first [of both_env "fake_backend 7 db_vm (\<lambda>h t. True)" 0 "get_req []"]
    stdio_static_token_first [of admin_env "fake_backend 7 db_vm (\<lambda>h t. True)" 0 "get_req []"]
  by (simp add: both_env_def admin_env_def fake_backend_def login_req_def vm_path_def
      dollar_key_def ok_resp_def)

subsection \<open>Responses that are not ok\<close>

text \<open>
  With a cached token, \<^verbatim>\<open>request\<close> sends the request once; a response outside
  200..299, 401 included, is thrown with its status and body, and the cached token stays
  as it is.
\<close>

lemma request_not_ok:
  assumes "truthy (token w)" and "authorization q = None"
    and "\<not> ok (B (trace w) (now w) (q\<lparr>cookie := token w\<rparr>))"
  shows "request B e q w =
           (Inl (ApiError (status (B (trace w) (now w) (q\<lparr>cookie := token w\<rparr>)))
                          (text_of (B (trace w) (now w) (q\<lparr>cookie := token w\<rparr>)))),
            w\<lparr>now := now w + took (B (trace w) (now w) (q\<lparr>cookie := token w\<rparr>)),
              trace := trace w @ [Sent (q\<lparr>cookie := token w\<rparr>)]\<rparr>)"
  using assms by (simp add: request_def getToken_def fetch_def Let_def)

text \<open>
  A backend that has expired the token \<open>old\<close>: it answers 401 to a request carrying
  it, and is the fake backend for VM 7 otherwise (a new login yields \<open>k1\<close>).
\<close>

definition expiring_backend :: backend where
  "expiring_backend h t q =
     (if cookie q = Some ''old''
      then \<lparr>status = 401, text_of = ''token expired'', json_of = JOther, took = 0\<rparr>
      else fake_backend 7 db_vm (\<lambda>h t. True) h t q)"

definition stale_client :: world where
  "stale_client = \<lparr>now = 0, token = Some ''old'', trace = []\<rparr>"

text \<open>
  Claim C2 at a client whose cached token has expired. The claim says the client drops
  the token, logs in again and retries once. The code throws \<^verbatim>\<open>API Error 401\<close> after
  the one request and keeps the token, so the next request fails the same way; had the
  token been dropped, the same request would have logged in and succeeded.
\<close>

theorem request_401_is_thrown:
  "request expiring_backend admin_env (get_req (vm_path 7)) stale_client
     = (Inl (ApiError 401 ''token expired''),
        \<lparr>now = 0, token = Some ''old'',
         trace = [Sent \<lparr>meth = ''GET'', path = ''/api/v4/vms/7?fields=most'',
                        authorization = None, cookie = Some ''old'', body = NoBody\<rparr>]\<rparr>)
   \<and> fst (request expiring_backend admin_env (get_req (vm_path 7))
           (snd (request expiring_backend admin_env (get_req (vm_path 7)) stale_client)))
     = Inl (ApiError 401 ''token expired'')
   \<and> fst (request expiring_backend admin_env (get_req (vm_path 7))
           (stale_client\<lparr>token := None\<rparr>))
     = Inr (JVm db_vm)"
  by (simp add: client_defs fixture_defs expiring_backend_def stale_client_def)

section \<open>The polling loop on the clock\<close>

text \<open>
  The claims about the timeout are about a harness with simulated time: only the sleeps
  move the clock (\<open>instant\<close>). The backend is healthy (\<open>serves\<close>): every response
  is ok, the VM read returns the VM, and the status list has a row \<open>st h t\<close> for its
  machine, which may depend on the history and on the clock. The client can
  authenticate: it has a token cached or a user/password pair to log in with.
\<close>

definition instant :: "backend \<Rightarrow> bool" where
  "instant B \<longleftrightarrow> (\<forall>h t q. took (B h t q) = 0)"

definition serves :: "backend \<Rightarrow> nat \<Rightarrow> vm \<Rightarrow> (event list \<Rightarrow> nat \<Rightarrow> machine_status) \<Rightarrow> bool" where
  "serves B vid v st \<longleftrightarrow>
     (\<forall>h t q. ok (B h t q))
     \<and> (\<forall>h t q. path q = vm_path vid \<longrightarrow> json_of (B h t q) = JVm v)
     \<and> (\<forall>h t q. path q = ''/api/v4/machine_status'' \<longrightarrow>
           (\<exists>sts. json_of (B h t q) = JStatusList sts
                  \<and> find (\<lambda>s. ms_machine s = vm_machine v) sts = Some (st h t)))"

definition can_login :: "env \<Rightarrow> world \<Rightarrow> bool" where
  "can_login e w \<longleftrightarrow> truthy (token w) \<or> (VERGEOS_USER e \<noteq> [] \<and> VERGEOS_PASS e \<noteq> [])"

text \<open>On such a backend every request succeeds and takes no time.\<close>

lemma request_served:
  assumes "instant B" and "\<forall>h t q. ok (B h t q)" and "can_login e w"
  shows "\<exists>h c w'. request B e q w = (Inr (json_of (B h (now w) (q\<lparr>cookie := c\<rparr>))), w')
           \<and> now w' = now w \<and> can_login e w'"
proof (cases "truthy (token w)")
  case True
  show ?thesis
  proof (cases "authorization q = None")
    case a: True
    show ?thesis
      using assms True a
      by (intro exI [of _ "trace w"] exI [of _ "token w"])
        (auto simp: request_def getToken_def fetch_def Let_def instant_def can_login_def)
  next
    case a: False
    show ?thesis
      using assms True a
      by (intro exI [of _ "trace w"] exI [of _ "cookie q"])
        (auto simp: request_def getToken_def fetch_def Let_def instant_def can_login_def)
  qed
next
  case False
  let ?k = "dollar_key (json_of (B (trace w) (now w) (login_req e)))"
  let ?h = "trace w @ [Sent (login_req e)]"
  show ?thesis
  proof (cases "truthy ?k \<and> authorization q = None")
    case True
    show ?thesis
      using assms False True
      by (intro exI [of _ ?h] exI [of _ ?k])
        (auto simp: request_def getToken_def fetch_def Let_def instant_def can_login_def)
  next
    case b: False
    show ?thesis
      using assms False b
      by (intro exI [of _ ?h] exI [of _ "cookie q"])
        (auto simp: request_def getToken_def fetch_def Let_def instant_def can_login_def)
  qed
qed

lemma getVMStatus_served:
  assumes "instant B" and "serves B vid v st" and "can_login e w"
  shows "\<exists>cs h w'. getVMStatus B e vid w = (Inr cs, w')
           \<and> running cs = ms_running (st h (now w))
           \<and> power_state cs = ms_status (st h (now w))
           \<and> name cs = vm_name v
           \<and> now w' = now w \<and> can_login e w'"
proof -
  have oks: "\<forall>h t q. ok (B h t q)"
    using assms(2) by (simp add: serves_def)
  obtain h1 c1 w1 where r1:
    "request B e (get_req (vm_path vid)) w
       = (Inr (json_of (B h1 (now w) ((get_req (vm_path vid))\<lparr>cookie := c1\<rparr>))), w1)"
    "now w1 = now w" "can_login e w1"
    using request_served [OF assms(1) oks assms(3)] by blast
  obtain h2 c2 w2 where r2:
    "request B e (get_req ''/api/v4/machine_status'') w1
       = (Inr (json_of (B h2 (now w1) ((get_req ''/api/v4/machine_status'')\<lparr>cookie := c2\<rparr>))), w2)"
    "now w2 = now w1" "can_login e w2"
    using request_served [OF assms(1) oks r1(3)] by blast
  have j1: "json_of (B h1 (now w) ((get_req (vm_path vid))\<lparr>cookie := c1\<rparr>)) = JVm v"
    using assms(2) by (simp add: serves_def get_req_def)
  obtain sts where j2:
    "json_of (B h2 (now w1) ((get_req ''/api/v4/machine_status'')\<lparr>cookie := c2\<rparr>)) = JStatusList sts"
    "find (\<lambda>s. ms_machine s = vm_machine v) sts = Some (st h2 (now w1))"
  proof -
    have "path ((get_req ''/api/v4/machine_status'')\<lparr>cookie := c2\<rparr>) = ''/api/v4/machine_status''"
      by (simp add: get_req_def)
    then show ?thesis
      using assms(2) that unfolding serves_def by blast
  qed
  have g: "getVMStatus B e vid w =
      (Inr \<lparr>vm_id = vid, name = vm_name v, machine = Some (vm_machine v),
            running = ms_running (st h2 (now w1)), power_state = ms_status (st h2 (now w1)),
            status_info = Some (ms_status_info (st h2 (now w1))),
            migratable = Some (ms_migratable (st h2 (now w1)))\<rparr>, w2)"
    by (simp add: getVMStatus_def r1(1) r2(1) j1 j2 as_vm_def as_statuses_def)
  show ?thesis
    unfolding g using r1(2) r2(2,3) by (auto intro!: exI [of _ h2])
qed

lemma vmAction_served:
  assumes "instant B" and "serves B vid v st" and "can_login e w"
  shows "\<exists>j w'. vmAction B e vid a w = (Inr j, w') \<and> now w' = now w \<and> can_login e w'"
proof -
  have oks: "\<forall>h t q. ok (B h t q)"
    using assms(2) by (simp add: serves_def)
  show ?thesis
    using request_served [OF assms(1) oks assms(3), of "action_req vid a"]
    by (auto simp: vmAction_def)
qed

lemma can_login_sleep [simp]: "can_login e (sleep ms w) = can_login e w"
  by (simp add: can_login_def sleep_def)

text \<open>
  The loop on such a backend, entered \<open>j\<close> rounds after \<open>startTime\<close>, ends
  \<open>j'\<close> rounds after it; when \<open>mw\<close> is at most \<open>K\<close> rounds, so is \<open>j'\<close>.
  It leaves on the clock only at or after \<open>mw\<close>, and then (unless it never ran) its
  last read, made at the time it ends, said running; it returns from inside only with a
  read, made at the time it ends, that said stopped.
\<close>

lemma poll_served:
  "instant B \<Longrightarrow> serves B vid v st \<Longrightarrow>
   can_login e w \<Longrightarrow> now w = s + 3000 * j \<Longrightarrow> mw \<le> 3000 * int K \<Longrightarrow>
     \<exists>res w' j'. poll B e vid s mw w = (Inr res, w') \<and> can_login e w'
        \<and> now w' = s + 3000 * j' \<and> j \<le> j' \<and> (j' \<le> K \<or> j' = j)
        \<and> (case res of
              None \<Rightarrow> mw \<le> 3000 * int j' \<and> (j' = j \<or> (\<exists>h. ms_running (st h (now w'))))
            | Some cs \<Rightarrow> j < j' \<and> \<not> running cs
                \<and> (\<exists>h. \<not> ms_running (st h (now w'))
                       \<and> power_state cs = ms_status (st h (now w'))))"
proof (induction B e vid s mw w arbitrary: j rule: poll.induct)
  case (1 B e vid s mw w)
  note inst = "1.prems"(1) and srv = "1.prems"(2) and login = "1.prems"(3)
    and clock = "1.prems"(4) and bound = "1.prems"(5)
  show ?case
  proof (cases "int (now w) - int s < mw")
    case False
    then have "poll B e vid s mw w = (Inr None, w)"
      by (simp add: poll.simps)
    moreover have "mw \<le> 3000 * int j"
      using False clock by simp
    ultimately show ?thesis
      using login clock by (intro exI [of _ None] exI [of _ w] exI [of _ j]) simp
  next
    case True
    then have jK: "j < K"
      using clock bound by simp
    let ?ws = "sleep pollInterval w"
    have nws: "now ?ws = s + 3000 * Suc j"
      using clock by (simp add: sleep_def pollInterval_def)
    obtain cs h w1 where g: "getVMStatus B e vid ?ws = (Inr cs, w1)"
      and rc: "running cs = ms_running (st h (now ?ws))"
      and pc: "power_state cs = ms_status (st h (now ?ws))"
      and n1: "now w1 = now ?ws" and l1: "can_login e w1"
      using getVMStatus_served [OF inst srv, of e ?ws] login by auto
    show ?thesis
    proof (cases "running cs")
      case False
      then have "poll B e vid s mw w = (Inr (Some cs), w1)"
        using True g by (simp add: poll.simps)
      then show ?thesis
        using False rc pc n1 l1 nws jK
        by (intro exI [of _ "Some cs"] exI [of _ w1] exI [of _ "Suc j"]) auto
    next
      case r: True
      then have p: "poll B e vid s mw w = poll B e vid s mw w1"
        using True g by (simp add: poll.simps)
      have n1': "now w1 = s + 3000 * Suc j"
        using n1 nws by simp
      obtain res w' j' where ih: "poll B e vid s mw w1 = (Inr res, w')" "can_login e w'"
        "now w' = s + 3000 * j'" "Suc j \<le> j'" "j' \<le> K \<or> j' = Suc j"
        "case res of
           None \<Rightarrow> mw \<le> 3000 * int j' \<and> (j' = Suc j \<or> (\<exists>h. ms_running (st h (now w'))))
         | Some cs \<Rightarrow> Suc j < j' \<and> \<not> running cs
             \<and> (\<exists>h. \<not> ms_running (st h (now w'))
                    \<and> power_state cs = ms_status (st h (now w')))"
        using "1.IH" [OF True g [symmetric] refl _ inst srv l1 n1' bound] r by blast
      have last: "j' = Suc j \<Longrightarrow> \<exists>h. ms_running (st h (now w'))"
        using r rc n1 n1' ih(3) by (intro exI [of _ h]) simp
      show ?thesis
        unfolding p
        using ih jK last
        by (intro exI [of _ res] exI [of _ w'] exI [of _ j'])
          (auto split: option.splits)
    qed
  qed
qed

subsection \<open>A VM that stops exactly at the timeout\<close>

text \<open>
  A backend that takes \<open>d\<close> ms to answer each request, and a client that already
  holds the token.
\<close>

definition slow_backend :: "nat \<Rightarrow> nat \<Rightarrow> vm \<Rightarrow> (event list \<Rightarrow> nat \<Rightarrow> bool) \<Rightarrow> backend" where
  "slow_backend d vid v run h t q = (fake_backend vid v run h t q)\<lparr>took := d\<rparr>"

definition warm_client :: world where
  "warm_client = \<lparr>now = 0, token = Some ''k1'', trace = []\<rparr>"

lemmas run_defs =
  powerOffVM_def getVMStatus_def client_defs fixture_defs db_vm_def power_opts_def
  with_default_def poll.simps maxWait_def empty_power_def elapsed_def slow_backend_def
  warm_client_def

text \<open>
  Claim C1 says that a VM which stops exactly at the timeout is always reported as a
  graceful success. With responses that take 1.5 s it is not: the loop starts at
  4500 ms with a timeout of 12 s, the VM stops at 16500 ms, the second poll is sent at
  15000 ms and answered at 16500 ms, and the loop ends on the clock without another
  read. Without force the call fails, although the read it then makes says stopped;
  with force the VM is killed and the result is forced.
\<close>

theorem powerOff_boundary_counterexample:
  "now (snd (vmAction (slow_backend 1500 7 db_vm (\<lambda>h t. t < 16500)) admin_env 7 ''poweroff''
          (snd (getVMStatus (slow_backend 1500 7 db_vm (\<lambda>h t. t < 16500)) admin_env 7
                  warm_client)))) + nat (maxWait 12) = 16500
   \<and> fst (powerOffVM (slow_backend 1500 7 db_vm (\<lambda>h t. t < 16500)) admin_env 7
             (power_opts (Some 12) (Some False)) warm_client)
     = Inr (empty_power
         \<lparr>success := False,
          error := Some (''VM '' @ quoted ''db'' @ '' did not shut down within 12s''),
          current_state := Some ''stopped'',
          elapsed_seconds := Some 15,
          hint := Some
            ''Use force_after_timeout=true to automatically force shutdown after timeout''\<rparr>)
   \<and> fst (powerOffVM (slow_backend 1500 7 db_vm (\<lambda>h t. t < 16500)) admin_env 7
             (power_opts (Some 12) (Some True)) warm_client)
     = Inr (empty_power
         \<lparr>success := True,
          message := Some (''VM '' @ quoted ''db''
                           @ '' did not shut down within 12s - forced power off''),
          final_state := Some ''stopped'',
          forced := Some True,
          elapsed_seconds := Some 19\<rparr>)"
  by (simp add: run_defs show_int_def quoted_def show_nat.simps [of 12])

lemma elapsed_rounds: "now w' = s + 3000 * k \<Longrightarrow> elapsed s w' = 3 * int k"
  by (simp add: elapsed_def)

text \<open>
  Claim C1, amended. When backend responses take no time on the clock (simulated time,
  as in the spec's scenario), on a healthy backend whose status row says running at
  every time before \<open>startTime + maxWait\<close> and stopped from that time on (the VM
  stops exactly at the timeout, clamped to 300 s; \<open>startTime\<close> is the time of the
  call, since the requests before the loop take no time), every \<^verbatim>\<open>powerOffVM\<close> with a
  positive wait returns a graceful success, with or without \<^verbatim>\<open>force_after_timeout\<close>:
  \<^verbatim>\<open>success: true\<close>, no \<^verbatim>\<open>forced\<close> and no \<^verbatim>\<open>error\<close> key, \<^verbatim>\<open>final_state\<close> the
  state of a read that said stopped, and \<^verbatim>\<open>elapsed_seconds\<close> the timeout rounded up to
  a whole number of 3 s rounds. The loop tests the clock before each sleep and reads the
  status after it, so the read at the boundary comes before the test that would end the
  loop.
\<close>

theorem powerOff_stops_at_boundary:
  assumes "instant B" and "serves B vid v st" and "can_login e w"
    and "wait_timeout options = Some wait" and "0 < wait"
    and "\<forall>h t. ms_running (st h t) \<longleftrightarrow> t < now w + nat (maxWait wait)"
  shows "\<exists>r w'. powerOffVM B e vid options w = (Inr r, w')
           \<and> success r \<and> forced r = None \<and> error r = None
           \<and> (\<exists>h. final_state r = Some (ms_status (st h (now w')))
                  \<and> \<not> ms_running (st h (now w')))
           \<and> elapsed_seconds r = Some (3 * ((min wait 300 + 2) div 3))
           \<and> now w' = now w + 3000 * nat ((min wait 300 + 2) div 3)"
proof -
  define m where "m = min wait 300"
  define K where "K = nat ((m + 2) div 3)"
  have m: "0 < m" "maxWait wait = 1000 * m"
    using assms(5) by (simp_all add: m_def maxWait_def)
  have k0: "0 \<le> (m + 2) div 3" using m(1) by presburger
  have k1: "m \<le> 3 * ((m + 2) div 3)" by presburger
  have k2: "3 * ((m + 2) div 3) < m + 3" by presburger
  have iK: "int K = (m + 2) div 3" using k0 by (simp add: K_def)
  have K: "maxWait wait \<le> 3000 * int K" "3 * int K < m + 3"
    using m(2) k1 k2 iK by simp_all
  obtain st0 h0 w1 where g0: "getVMStatus B e vid w = (Inr st0, w1)"
    and r0: "running st0 = ms_running (st h0 (now w))"
    and n1: "now w1 = now w" and l1: "can_login e w1"
    using getVMStatus_served [OF assms(1,2,3)] by blast
  have run0: "running st0"
    using r0 assms(6) m by simp
  obtain j w2 where a: "vmAction B e vid ''poweroff'' w1 = (Inr j, w2)"
    and n2: "now w2 = now w" and l2: "can_login e w2"
    using vmAction_served [OF assms(1,2) l1, of "''poweroff''"] n1 by auto
  obtain res w3 j' where p: "poll B e vid (now w2) (maxWait wait) w2 = (Inr res, w3)"
    and n3: "now w3 = now w2 + 3000 * j'" and jK: "j' \<le> K \<or> j' = 0"
    and c: "case res of
              None \<Rightarrow> maxWait wait \<le> 3000 * int j'
                       \<and> (j' = 0 \<or> (\<exists>h. ms_running (st h (now w3))))
            | Some cs \<Rightarrow> 0 < j' \<and> \<not> running cs
                \<and> (\<exists>h. \<not> ms_running (st h (now w3))
                       \<and> power_state cs = ms_status (st h (now w3)))"
    using poll_served [OF assms(1,2) l2, of "now w2" 0 "maxWait wait" K] K(1) by auto
  have "res \<noteq> None"
  proof
    assume "res = None"
    then have "maxWait wait \<le> 3000 * int j'" "j' = 0 \<or> (\<exists>h. ms_running (st h (now w3)))"
      using c by simp_all
    then show False
      using assms(6) n3 n2 m by auto
  qed
  then obtain cs where res: "res = Some cs" by blast
  then obtain h where cs: "0 < j'" "\<not> ms_running (st h (now w3))"
    "power_state cs = ms_status (st h (now w3))"
    using c by auto
  have "j' = K"
    using cs(1,2) assms(6) n3 n2 m K jK by auto
  then have n3': "now w3 = now w2 + 3000 * K"
    using n3 by simp
  have el: "elapsed (now w2) w3 = 3 * ((min wait 300 + 2) div 3)"
    using elapsed_rounds [OF n3'] iK by (simp add: m_def)
  have "powerOffVM B e vid options w =
      (Inr (empty_power
         \<lparr>success := True,
          message := Some (''VM '' @ quoted (name st0) @ '' shut down gracefully''),
          final_state := Some (power_state cs),
          elapsed_seconds := Some (elapsed (now w2) w3)\<rparr>), w3)"
    using assms(4,5) g0 run0 a p res
    by (simp add: powerOffVM_def Let_def with_default_def)
  then show ?thesis
    using cs(2,3) el n3' n2
    by (auto simp: empty_power_def K_def m_def)
qed

text \<open>The fake backend is healthy and instant; its status row is \<open>fake_row\<close>.\<close>

definition fake_row :: "vm \<Rightarrow> bool \<Rightarrow> machine_status" where
  "fake_row v r =
     \<lparr>ms_machine = vm_machine v, ms_running = r,
      ms_status = (if r then ''running'' else ''stopped''),
      ms_status_info = [], ms_migratable = True\<rparr>"

lemma vm_path_not_status: "vm_path vid \<noteq> ''/api/v4/machine_status''"
  by (simp add: vm_path_def)

lemma fake_backend_instant: "instant (fake_backend vid v run)"
  by (simp add: instant_def fake_backend_def ok_resp_def)

lemma fake_backend_serves:
  "serves (fake_backend vid v run) vid v (\<lambda>h t. fake_row v (run h t))"
  using vm_path_not_status [of vid]
  by (auto simp: serves_def fake_backend_def ok_resp_def ok_def fake_row_def)

lemma admin_can_login: "can_login admin_env w"
  by (simp add: can_login_def admin_env_def)

text \<open>
  The spec's scenario: \<^verbatim>\<open>powerOff(7, 6, false)\<close>, VM 7 running at 0 s and 3 s and
  stopped at 6 s: success, \<^verbatim>\<open>final_state\<close> stopped, \<^verbatim>\<open>elapsed_seconds\<close> 6.
\<close>

theorem powerOff_stops_at_boundary_witness:
  "\<exists>r w'. powerOffVM (fake_backend 7 db_vm (\<lambda>h t. t < 6000)) admin_env 7
        (power_opts (Some 6) (Some False)) (constructor_http admin_env 0) = (Inr r, w')
     \<and> success r \<and> forced r = None \<and> error r = None
     \<and> final_state r = Some ''stopped'' \<and> elapsed_seconds r = Some 6 \<and> now w' = 6000"
proof -
  let ?B = "fake_backend 7 db_vm (\<lambda>h t. t < 6000)"
  let ?w = "constructor_http admin_env 0"
  let ?o = "power_opts (Some 6) (Some False)"
  have o: "wait_timeout ?o = Some 6" "(0::int) < 6"
    by (simp_all add: power_opts_def)
  have b: "\<forall>h t. ms_running (fake_row db_vm (t < 6000)) \<longleftrightarrow> t < now ?w + nat (maxWait 6)"
    by (simp add: fake_row_def constructor_http_def maxWait_def)
  show ?thesis
    using powerOff_stops_at_boundary
      [OF fake_backend_instant fake_backend_serves [of 7 db_vm "\<lambda>h t. t < 6000"]
        admin_can_login o b]
    by (auto simp: fake_row_def constructor_http_def)
qed

text \<open>
  The same scenario with a backend scripted by the number of status reads it has served:
  running on the first two (the read at the call and the poll at 3 s), stopped on the
  third (the poll at 6 s).
\<close>

definition status_reads_before :: "event list \<Rightarrow> nat" where
  "status_reads_before h =
     length (filter (\<lambda>ev. case ev of Sent q \<Rightarrow> path q = ''/api/v4/machine_status''
                                    | Slept ms \<Rightarrow> False) h)"

lemma powerOff_scripted_scenario:
  "\<exists>r w'. powerOffVM (fake_backend 7 db_vm (\<lambda>h t. status_reads_before h < 2)) admin_env 7
        (power_opts (Some 6) (Some False)) (constructor_http admin_env 0) = (Inr r, w')
     \<and> success r \<and> forced r = None \<and> error r = None
     \<and> final_state r = Some ''stopped'' \<and> elapsed_seconds r = Some 6"
  by (simp add: powerOffVM_def getVMStatus_def client_defs fixture_defs db_vm_def
      power_opts_def with_default_def poll.simps maxWait_def status_reads_before_def
      empty_power_def elapsed_def)

subsection \<open>The wait is clamped\<close>

text \<open>
  The time \<^verbatim>\<open>powerOffVM\<close> spends asleep is the sum of the sleeps in its trace. The
  clock moves on by at least 3 s in every round of the loop, and a round starts only
  before \<open>maxWait\<close>, so the rounds are at most \<open>maxWait\<close> rounded up to whole
  rounds.
\<close>

fun slept :: "event list \<Rightarrow> nat" where
  "slept [] = 0"
| "slept (Sent q # evs) = slept evs"
| "slept (Slept ms # evs) = ms + slept evs"

lemma slept_append [simp]: "slept (xs @ ys) = slept xs + slept ys"
  by (induction xs rule: slept.induct) auto

lemma request_slept: "request B e q w = (res, w') \<Longrightarrow> slept (trace w') = slept (trace w)"
  by (auto simp: request_def getToken_def fetch_def Let_def split: prod.splits sum.splits if_splits)

lemma getVMStatus_slept:
  "getVMStatus B e vid w = (res, w') \<Longrightarrow> slept (trace w') = slept (trace w)"
  by (auto simp: getVMStatus_def split: prod.splits sum.splits option.splits
      dest!: request_slept)

lemma vmAction_slept:
  "vmAction B e vid a w = (res, w') \<Longrightarrow> slept (trace w') = slept (trace w)"
  by (auto simp: vmAction_def dest!: request_slept)

lemma sleep_slept [simp]: "slept (trace (sleep ms w)) = slept (trace w) + ms"
  by (simp add: sleep_def)

lemma getVMStatus_later: "getVMStatus B e vid w = (res, w') \<Longrightarrow> now w \<le> now w'"
  using now_getVMStatus [of w B e vid] by simp

lemma poll_slept:
  "poll B e vid s mw w = (res, w') \<Longrightarrow> slept (trace w) = base + 3000 * i \<Longrightarrow>
   s + 3000 * i \<le> now w \<Longrightarrow> mw \<le> 3000 * int K \<Longrightarrow>
   \<exists>i'. slept (trace w') = base + 3000 * i' \<and> (i' \<le> K \<or> i' = i)"
proof (induction B e vid s mw w arbitrary: i rule: poll.induct)
  case (1 B e vid s mw w)
  show ?case
  proof (cases "int (now w) - int s < mw")
    case False
    then have "w' = w" using "1.prems"(1) by (simp add: poll.simps)
    then show ?thesis using "1.prems"(2) by auto
  next
    case True
    then have iK: "i < K" using "1.prems"(3,4) by simp
    let ?ws = "sleep pollInterval w"
    obtain x w1 where g: "getVMStatus B e vid ?ws = (x, w1)"
      by (cases "getVMStatus B e vid ?ws")
    have s1: "slept (trace w1) = base + 3000 * Suc i"
      using getVMStatus_slept [OF g] "1.prems"(2) by (simp add: pollInterval_def)
    have n1: "s + 3000 * Suc i \<le> now w1"
      using getVMStatus_later [OF g] "1.prems"(3) by (simp add: sleep_def pollInterval_def)
    show ?thesis
    proof (cases "\<exists>cs. x = Inr cs \<and> running cs")
      case False
      then have "w' = w1"
        using "1.prems"(1) True g by (cases x) (auto simp: poll.simps)
      then show ?thesis using s1 iK by (intro exI [of _ "Suc i"]) simp
    next
      case t: True
      then obtain cs where x: "x = Inr cs" and r: "running cs" by blast
      then have "poll B e vid s mw w1 = (res, w')"
        using "1.prems"(1) True g by (simp add: poll.simps)
      from "1.IH" [OF True g [symmetric] x _ this s1 n1 "1.prems"(4)] r
      obtain i' where "slept (trace w') = base + 3000 * i'" "i' \<le> K \<or> i' = Suc i"
        by auto
      then show ?thesis using iK by (intro exI [of _ i']) auto
    qed
  qed
qed

text \<open>
  The most rounds a loop with the timeout \<open>min(wait, 300)\<close> s can make: the timeout
  divided by the 3 s of a round, rounded up; never more than 100.
\<close>

definition rounds_max :: "int \<Rightarrow> nat" where
  "rounds_max wait = nat ((min wait 300 + 2) div 3)"

lemma rounds_max_le: "rounds_max wait \<le> 100"
proof -
  define m where "m = min wait 300"
  have "m \<le> 300" by (simp add: m_def)
  then have "(m + 2) div 3 \<le> 100" by presburger
  then show ?thesis by (simp add: rounds_max_def m_def)
qed

lemma maxWait_rounds: "maxWait wait \<le> 3000 * int (rounds_max wait)"
proof -
  define m where "m = min wait 300"
  have "m \<le> 3 * ((m + 2) div 3)" by presburger
  moreover have "(m + 2) div 3 \<le> int (nat ((m + 2) div 3))" by simp
  ultimately have "1000 * m \<le> 3000 * int (nat ((m + 2) div 3))" by linarith
  then show ?thesis by (simp add: maxWait_def rounds_max_def m_def)
qed

lemma poll_sleeps:
  assumes "poll B e vid (now w) (maxWait wait) w = (res, w')"
  shows "\<exists>n. slept (trace w') = slept (trace w) + 3000 * n \<and> n \<le> rounds_max wait"
  using poll_slept [OF assms, of "slept (trace w)" 0 "rounds_max wait"] maxWait_rounds [of wait]
  by auto

text \<open>The loop leaves on the clock only once \<open>maxWait\<close> has elapsed.\<close>

lemma poll_none_late:
  "poll B e vid s mw w = (Inr None, w') \<Longrightarrow> mw \<le> int (now w') - int s"
proof (induction B e vid s mw w rule: poll.induct)
  case (1 B e vid s mw w)
  show ?case
  proof (cases "int (now w) - int s < mw")
    case False
    then show ?thesis using "1.prems" by (simp add: poll.simps)
  next
    case True
    obtain x w1 where g: "getVMStatus B e vid (sleep pollInterval w) = (x, w1)"
      by (cases "getVMStatus B e vid (sleep pollInterval w)")
    then obtain cs where x: "x = Inr cs" and r: "running cs"
      and p: "poll B e vid s mw w1 = (Inr None, w')"
      using "1.prems" True by (cases x) (auto simp: poll.simps split: if_splits)
    from "1.IH" [OF True g [symmetric] x _ p] r show ?thesis by simp
  qed
qed

lemma vmAction_later: "vmAction B e vid a w = (res, w') \<Longrightarrow> now w \<le> now w'"
  using now_request [of w B e "action_req vid a"] by (simp add: vmAction_def)

lemma elapsed_late:
  "mw \<le> int (now w3) - int s \<Longrightarrow> now w3 \<le> now w' \<Longrightarrow> mw = 1000 * m \<Longrightarrow> m \<le> elapsed s w'"
  by (simp add: elapsed_def)

text \<open>
  What \<^verbatim>\<open>powerOffVM\<close> sleeps, whatever the backend does and however the call ends:
  the rounds of the loop, and the 2 s settle delay once the kill was accepted.
\<close>

lemma powerOffVM_sleeps:
  assumes "powerOffVM B e vid options w = (res, w')"
  shows "\<exists>n d. slept (trace w') = slept (trace w) + 3000 * n + d
           \<and> n \<le> rounds_max (with_default 0 (wait_timeout options))
           \<and> (d = 0 \<or> d = 2000)
           \<and> (with_default 0 (wait_timeout options) \<le> 0 \<longrightarrow> n = 0 \<and> d = 0)
           \<and> (\<forall>r. res = Inr r \<longrightarrow> d = (if forced r = Some True then 2000 else 0))"
proof -
  define wait where "wait = with_default 0 (wait_timeout options)"
  define force where "force = with_default False (force_after_timeout options)"
  let ?P = "\<lambda>n d. slept (trace w') = slept (trace w) + 3000 * n + d
           \<and> n \<le> rounds_max wait \<and> (d = 0 \<or> d = 2000) \<and> (wait \<le> 0 \<longrightarrow> n = 0 \<and> d = 0)
           \<and> (\<forall>r. res = Inr r \<longrightarrow> d = (if forced r = Some True then 2000 else 0))"
  obtain x1 w1 where g1: "getVMStatus B e vid w = (x1, w1)"
    by (cases "getVMStatus B e vid w")
  have s1: "slept (trace w1) = slept (trace w)" by (rule getVMStatus_slept [OF g1])
  obtain x2 w2 where g2: "vmAction B e vid ''poweroff'' w1 = (x2, w2)"
    by (cases "vmAction B e vid ''poweroff'' w1")
  have s2: "slept (trace w2) = slept (trace w)" using vmAction_slept [OF g2] s1 by simp
  obtain x3 w3 where g3: "poll B e vid (now w2) (maxWait wait) w2 = (x3, w3)"
    by (cases "poll B e vid (now w2) (maxWait wait) w2")
  obtain n where s3: "slept (trace w3) = slept (trace w) + 3000 * n" "n \<le> rounds_max wait"
    using poll_sleeps [OF g3] s2 by auto
  obtain x4 w4 where g4: "vmAction B e vid ''kill'' w3 = (x4, w4)"
    by (cases "vmAction B e vid ''kill'' w3")
  have s4: "slept (trace w4) = slept (trace w) + 3000 * n" using vmAction_slept [OF g4] s3 by simp
  obtain x5 w5 where g5: "getVMStatus B e vid (sleep 2000 w4) = (x5, w5)"
    by (cases "getVMStatus B e vid (sleep 2000 w4)")
  have s5: "slept (trace w5) = slept (trace w) + 3000 * n + 2000"
    using getVMStatus_slept [OF g5] s4 by simp
  obtain x6 w6 where g6: "getVMStatus B e vid w3 = (x6, w6)"
    by (cases "getVMStatus B e vid w3")
  have s6: "slept (trace w6) = slept (trace w) + 3000 * n" using getVMStatus_slept [OF g6] s3 by simp
  have "?P 0 0 \<or> ?P n 0 \<or> ?P n 2000"
    using assms g1 g2 g3 g4 g5 g6 s1 s2 s3 s4 s5 s6
    by (auto simp: powerOffVM_def Let_def empty_power_def wait_def [symmetric]
        force_def [symmetric] split: sum.splits option.splits if_splits)
  then show ?thesis unfolding wait_def by blast
qed

text \<open>A timeout result, failure or forced, is not early.\<close>

lemma powerOffVM_timeout_late:
  assumes "powerOffVM B e vid options w = (Inr r, w')"
    and "forced r = Some True \<or> \<not> success r"
  shows "0 < with_default 0 (wait_timeout options)
       \<and> (\<exists>s. elapsed_seconds r = Some s \<and> min (with_default 0 (wait_timeout options)) 300 \<le> s)"
proof -
  define wait where "wait = with_default 0 (wait_timeout options)"
  obtain x1 w1 where g1: "getVMStatus B e vid w = (x1, w1)"
    by (cases "getVMStatus B e vid w")
  obtain x2 w2 where g2: "vmAction B e vid ''poweroff'' w1 = (x2, w2)"
    by (cases "vmAction B e vid ''poweroff'' w1")
  obtain x3 w3 where g3: "poll B e vid (now w2) (maxWait wait) w2 = (x3, w3)"
    by (cases "poll B e vid (now w2) (maxWait wait) w2")
  obtain x4 w4 where g4: "vmAction B e vid ''kill'' w3 = (x4, w4)"
    by (cases "vmAction B e vid ''kill'' w3")
  obtain x5 w5 where g5: "getVMStatus B e vid (sleep 2000 w4) = (x5, w5)"
    by (cases "getVMStatus B e vid (sleep 2000 w4)")
  obtain x6 w6 where g6: "getVMStatus B e vid w3 = (x6, w6)"
    by (cases "getVMStatus B e vid w3")
  have l5: "now w3 \<le> now w5"
    using vmAction_later [OF g4] getVMStatus_later [OF g5] by (simp add: sleep_def)
  have l6: "now w3 \<le> now w6"
    by (rule getVMStatus_later [OF g6])
  have late: "x3 = Inr None \<Longrightarrow> maxWait wait \<le> int (now w3) - int (now w2)"
    using poll_none_late [of B e vid "now w2" "maxWait wait" w2 w3] g3 by simp
  have m: "maxWait wait = 1000 * min wait 300"
    by (simp add: maxWait_def)
  have e5: "x3 = Inr None \<Longrightarrow> min wait 300 \<le> elapsed (now w2) w5"
    using elapsed_late [OF late l5 m] by simp
  have e6: "x3 = Inr None \<Longrightarrow> min wait 300 \<le> elapsed (now w2) w6"
    using elapsed_late [OF late l6 m] by simp
  show ?thesis
    using assms g1 g2 g3 g4 g5 g6 e5 e6
    by (auto simp: powerOffVM_def Let_def empty_power_def wait_def [symmetric]
        split: sum.splits option.splits if_splits)
qed

text \<open>
  A wait above 300 s runs as a wait of 300 s does: same world, same result but for the
  number quoted in \<^verbatim>\<open>message\<close> and \<^verbatim>\<open>error\<close>.
\<close>

definition strip_text :: "power_result \<Rightarrow> power_result" where
  "strip_text r = r\<lparr>message := None, error := None\<rparr>"

lemma powerOffVM_clamp:
  assumes "wait_timeout options = Some wait" and "300 \<le> wait"
  shows "map_prod (map_sum id strip_text) id
           (powerOffVM B e vid (options\<lparr>wait_timeout := Some 300\<rparr>) w)
         = map_prod (map_sum id strip_text) id (powerOffVM B e vid options w)"
proof -
  have "maxWait wait = maxWait 300"
    using assms(2) by (simp add: maxWait_def)
  then show ?thesis
    using assms
    by (auto simp: powerOffVM_def Let_def with_default_def strip_text_def empty_power_def
        split: prod.splits sum.splits option.splits)
qed

text \<open>No wait asked for, on a running VM whose shutdown action is accepted.\<close>

lemma powerOffVM_no_wait_running:
  assumes "getVMStatus B e vid w = (Inr st, w1)" and "running st"
    and "vmAction B e vid ''poweroff'' w1 = (Inr j, w2)"
    and "with_default 0 (wait_timeout options) \<le> 0"
  shows "powerOffVM B e vid options w =
           (Inr (empty_power
              \<lparr>success := True,
               message := Some (''Graceful shutdown command sent to VM '' @ quoted (name st)),
               previous_state := Some (power_state st),
               note_text := Some ''Use wait_timeout parameter to wait for shutdown completion''\<rparr>),
            w2)
       \<and> effects (trace w2) = effects (trace w)
            @ [Call ''GET'' (vm_path vid) NoBody, Call ''GET'' ''/api/v4/machine_status'' NoBody,
               Call ''POST'' ''/api/v4/vm_actions'' (ActionBody vid ''poweroff'')]"
  using assms getVMStatus_effects_ok [OF assms(1)] vmAction_effects [OF assms(3)]
  by (simp add: powerOffVM_def Let_def status_reads_def call_def get_req_def action_req_def)

text \<open>
  In simulated time on a healthy backend whose VM never stops, the loop runs all its
  rounds and the call ends in the timeout.
\<close>

lemma powerOffVM_never_stops:
  assumes "instant B" and "serves B vid v st" and "can_login e w"
    and "0 < with_default 0 (wait_timeout options)"
    and "\<forall>h t. ms_running (st h t)"
  shows "\<exists>r w'. powerOffVM B e vid options w = (Inr r, w')
           \<and> now w' = now w + 3000 * rounds_max (with_default 0 (wait_timeout options))
                 + (if with_default False (force_after_timeout options) then 2000 else 0)
           \<and> elapsed_seconds r = Some (3 * int (rounds_max (with_default 0 (wait_timeout options)))
                 + (if with_default False (force_after_timeout options) then 2 else 0))
           \<and> success r = with_default False (force_after_timeout options)
           \<and> forced r = (if with_default False (force_after_timeout options)
                          then Some True else None)"
proof -
  define wait where "wait = with_default 0 (wait_timeout options)"
  define force where "force = with_default False (force_after_timeout options)"
  define K where "K = rounds_max wait"
  have pos: "0 < wait" using assms(4) by (simp add: wait_def)
  obtain st0 h0 w1 where g0: "getVMStatus B e vid w = (Inr st0, w1)"
    and r0: "running st0 = ms_running (st h0 (now w))"
    and n1: "now w1 = now w" and l1: "can_login e w1"
    using getVMStatus_served [OF assms(1,2,3)] by blast
  have run0: "running st0" using r0 assms(5) by simp
  obtain j w2 where a: "vmAction B e vid ''poweroff'' w1 = (Inr j, w2)"
    and n2: "now w2 = now w" and l2: "can_login e w2"
    using vmAction_served [OF assms(1,2) l1, of "''poweroff''"] n1 by auto
  obtain res w3 j' where p: "poll B e vid (now w2) (maxWait wait) w2 = (Inr res, w3)"
    and l3: "can_login e w3"
    and n3: "now w3 = now w2 + 3000 * j'" and jK: "j' \<le> K \<or> j' = 0"
    and c: "case res of
              None \<Rightarrow> maxWait wait \<le> 3000 * int j'
                       \<and> (j' = 0 \<or> (\<exists>h. ms_running (st h (now w3))))
            | Some cs \<Rightarrow> 0 < j' \<and> \<not> running cs
                \<and> (\<exists>h. \<not> ms_running (st h (now w3))
                       \<and> power_state cs = ms_status (st h (now w3)))"
    using poll_served [OF assms(1,2) l2, of "now w2" 0 "maxWait wait" K]
      maxWait_rounds [of wait] by (auto simp: K_def)
  have none: "res = None"
    using c assms(5) by (cases res) auto
  then have low: "maxWait wait \<le> 3000 * int j'" using c by simp
  define m where "m = min wait 300"
  have m: "0 < m" "maxWait wait = 1000 * m" using pos by (simp_all add: m_def maxWait_def)
  have k2: "3 * ((m + 2) div 3) < m + 3" by presburger
  have k0: "0 \<le> (m + 2) div 3" using m(1) by presburger
  have iK: "int K = (m + 2) div 3" using k0 by (simp add: K_def rounds_max_def m_def)
  have "j' = K"
    using low jK m k2 iK by auto
  then have n3': "now w3 = now w + 3000 * K" using n3 n2 by simp
  show ?thesis
  proof (cases force)
    case True
    obtain j4 w4 where k: "vmAction B e vid ''kill'' w3 = (Inr j4, w4)"
      and n4: "now w4 = now w3" and l4: "can_login e w4"
      using vmAction_served [OF assms(1,2) l3, of "''kill''"] by auto
    obtain fin h5 w5 where g5: "getVMStatus B e vid (sleep 2000 w4) = (Inr fin, w5)"
      and n5: "now w5 = now (sleep 2000 w4)"
      using getVMStatus_served [OF assms(1,2), of e "sleep 2000 w4"] l4 by auto
    have "powerOffVM B e vid options w =
      (Inr (empty_power
         \<lparr>success := True,
          message := Some (''VM '' @ quoted (name st0) @ '' did not shut down within ''
                           @ show_int wait @ ''s - forced power off''),
          final_state := Some (power_state fin),
          forced := Some True,
          elapsed_seconds := Some (elapsed (now w2) w5)\<rparr>), w5)"
      using g0 run0 a p pos none True k g5
      by (simp add: powerOffVM_def Let_def wait_def force_def)
    moreover have "now w5 = now w + 3000 * K + 2000"
      using n5 n4 n3' by (simp add: sleep_def)
    moreover have "elapsed (now w2) w5 = 3 * int K + 2"
      using \<open>now w5 = now w + 3000 * K + 2000\<close> n2 by (simp add: elapsed_def)
    ultimately show ?thesis
      using True by (auto simp: empty_power_def wait_def force_def K_def)
  next
    case False
    obtain cur h4 w4 where g4: "getVMStatus B e vid w3 = (Inr cur, w4)"
      and n4: "now w4 = now w3"
      using getVMStatus_served [OF assms(1,2) l3] by auto
    have "powerOffVM B e vid options w =
      (Inr (empty_power
         \<lparr>success := False,
          error := Some (''VM '' @ quoted (name st0) @ '' did not shut down within ''
                         @ show_int wait @ ''s''),
          current_state := Some (power_state cur),
          elapsed_seconds := Some (elapsed (now w2) w4),
          hint := Some
            ''Use force_after_timeout=true to automatically force shutdown after timeout''\<rparr>),
       w4)"
      using g0 run0 a p pos none False g4
      by (simp add: powerOffVM_def Let_def wait_def force_def)
    moreover have "now w4 = now w + 3000 * K"
      using n4 n3' by simp
    moreover have "elapsed (now w2) w4 = 3 * int K"
      using \<open>now w4 = now w + 3000 * K\<close> n2 by (simp add: elapsed_def)
    ultimately show ?thesis
      using False by (auto simp: empty_power_def wait_def force_def K_def)
  qed
qed

text \<open>The outcome of a call in short: success and elapsed seconds, the clock, the time slept.\<close>

definition outcome :: "(exn + power_result) \<times> world \<Rightarrow> (exn + bool \<times> int option) \<times> nat \<times> nat" where
  "outcome x = (map_sum id (\<lambda>r. (success r, elapsed_seconds r)) (fst x),
                now (snd x), slept (trace (snd x)))"

text \<open>
  Claim C6 says that the effective wait lies in [0, 300] s. On the clock it does not
  when responses take time: with 10 s per response and a wait of 1000 s on a VM that
  never stops, the loop makes 14 rounds of 23 s, the last one started at 299 s, and the
  call reports 342 elapsed seconds.
\<close>

theorem powerOff_wait_counterexample:
  "outcome (powerOffVM (slow_backend 10000 7 db_vm (\<lambda>h t. True)) admin_env 7
             (power_opts (Some 1000) (Some False)) warm_client)
   = (Inr (False, Some 342), 372000, 42000)"
  by (simp add: outcome_def run_defs)

text \<open>
  Claim C6, amended. Whatever \<^verbatim>\<open>wait_timeout\<close> the caller gives, the timeout of the
  polling loop is \<open>min(wait_timeout, 300)\<close> s. For every backend and however the call
  ends: (1) the call sleeps \<open>n\<close> rounds of 3 s, \<open>n\<close> at most the timeout
  rounded up to whole rounds and so at most 100 (300 s), plus the 2 s settle delay
  exactly when a result is forced; (2) a timeout result, failure or forced, comes only
  for a positive wait, once at least the timeout has elapsed; (3) a wait of 300 s or
  more runs exactly as a wait of 300 s does, world and result, but for the number
  quoted in the texts; (4) with \<^verbatim>\<open>wait_timeout \<le> 0\<close> (or absent) the call does not
  sleep, and on a running VM whose \<^verbatim>\<open>poweroff\<close> is accepted it returns success in the
  world right after that dispatch, its effects being the status read and the action;
  (5) when responses take no time, on a healthy backend whose VM never stops, a positive
  wait ends after exactly the timeout rounded up to whole rounds (300 s for any wait of
  300 s or more), plus the 2 s when forcing. The time the responses take comes on top
  and is not bounded.
\<close>

theorem powerOff_wait_is_clamped:
  assumes "powerOffVM B e vid options w = (res, w')"
  shows "(\<exists>n d. slept (trace w') = slept (trace w) + 3000 * n + d
            \<and> n \<le> rounds_max (with_default 0 (wait_timeout options))
            \<and> rounds_max (with_default 0 (wait_timeout options)) \<le> 100
            \<and> (d = 0 \<or> d = 2000)
            \<and> (\<forall>r. res = Inr r \<longrightarrow> d = (if forced r = Some True then 2000 else 0)))
       \<and> (\<forall>r. res = Inr r \<and> (forced r = Some True \<or> \<not> success r) \<longrightarrow>
             0 < with_default 0 (wait_timeout options)
             \<and> (\<exists>s. elapsed_seconds r = Some s
                    \<and> min (with_default 0 (wait_timeout options)) 300 \<le> s))
       \<and> (\<forall>wait. wait_timeout options = Some wait \<and> 300 \<le> wait \<longrightarrow>
             map_prod (map_sum id strip_text) id
               (powerOffVM B e vid (options\<lparr>wait_timeout := Some 300\<rparr>) w)
             = (map_sum id strip_text res, w'))
       \<and> (with_default 0 (wait_timeout options) \<le> 0 \<longrightarrow>
             slept (trace w') = slept (trace w)
             \<and> (\<forall>st w1 j w2.
                   getVMStatus B e vid w = (Inr st, w1) \<and> running st
                   \<and> vmAction B e vid ''poweroff'' w1 = (Inr j, w2) \<longrightarrow>
                   res = Inr (empty_power
                     \<lparr>success := True,
                      message := Some (''Graceful shutdown command sent to VM ''
                                       @ quoted (name st)),
                      previous_state := Some (power_state st),
                      note_text := Some
                        ''Use wait_timeout parameter to wait for shutdown completion''\<rparr>)
                   \<and> w' = w2
                   \<and> effects (trace w') = effects (trace w)
                        @ [Call ''GET'' (vm_path vid) NoBody,
                           Call ''GET'' ''/api/v4/machine_status'' NoBody,
                           Call ''POST'' ''/api/v4/vm_actions'' (ActionBody vid ''poweroff'')]))
       \<and> (0 < with_default 0 (wait_timeout options) \<and> instant B \<and> serves B vid v st
            \<and> can_login e w \<and> (\<forall>h t. ms_running (st h t)) \<longrightarrow>
             now w' = now w + 3000 * rounds_max (with_default 0 (wait_timeout options))
                   + (if with_default False (force_after_timeout options) then 2000 else 0)
             \<and> (\<exists>r. res = Inr r
                    \<and> elapsed_seconds r
                        = Some (3 * int (rounds_max (with_default 0 (wait_timeout options)))
                            + (if with_default False (force_after_timeout options) then 2 else 0))
                    \<and> success r = with_default False (force_after_timeout options)
                    \<and> forced r = (if with_default False (force_after_timeout options)
                                   then Some True else None)))"
proof -
  have c1: "\<exists>n d. slept (trace w') = slept (trace w) + 3000 * n + d
            \<and> n \<le> rounds_max (with_default 0 (wait_timeout options))
            \<and> rounds_max (with_default 0 (wait_timeout options)) \<le> 100
            \<and> (d = 0 \<or> d = 2000)
            \<and> (\<forall>r. res = Inr r \<longrightarrow> d = (if forced r = Some True then 2000 else 0))"
    using powerOffVM_sleeps [OF assms] rounds_max_le by blast
  have c2: "\<forall>r. res = Inr r \<and> (forced r = Some True \<or> \<not> success r) \<longrightarrow>
             0 < with_default 0 (wait_timeout options)
             \<and> (\<exists>s. elapsed_seconds r = Some s
                    \<and> min (with_default 0 (wait_timeout options)) 300 \<le> s)"
    using powerOffVM_timeout_late [of B e vid options w _ w'] assms by blast
  have c3: "\<forall>wait. wait_timeout options = Some wait \<and> 300 \<le> wait \<longrightarrow>
             map_prod (map_sum id strip_text) id
               (powerOffVM B e vid (options\<lparr>wait_timeout := Some 300\<rparr>) w)
             = (map_sum id strip_text res, w')"
    using powerOffVM_clamp [of options _ B e vid w] assms by simp
  have c4: "with_default 0 (wait_timeout options) \<le> 0 \<longrightarrow> slept (trace w') = slept (trace w)"
    using powerOffVM_sleeps [OF assms] by auto
  have c5: "with_default 0 (wait_timeout options) \<le> 0 \<longrightarrow>
      (\<forall>st w1 j w2.
         getVMStatus B e vid w = (Inr st, w1) \<and> running st
         \<and> vmAction B e vid ''poweroff'' w1 = (Inr j, w2) \<longrightarrow>
         res = Inr (empty_power
           \<lparr>success := True,
            message := Some (''Graceful shutdown command sent to VM '' @ quoted (name st)),
            previous_state := Some (power_state st),
            note_text := Some ''Use wait_timeout parameter to wait for shutdown completion''\<rparr>)
         \<and> w' = w2
         \<and> effects (trace w') = effects (trace w)
              @ [Call ''GET'' (vm_path vid) NoBody,
                 Call ''GET'' ''/api/v4/machine_status'' NoBody,
                 Call ''POST'' ''/api/v4/vm_actions'' (ActionBody vid ''poweroff'')])"
    using powerOffVM_no_wait_running [of B e vid w _ _ _ _ options] assms by auto
  have c6: "0 < with_default 0 (wait_timeout options) \<and> instant B \<and> serves B vid v st
            \<and> can_login e w \<and> (\<forall>h t. ms_running (st h t)) \<longrightarrow>
             now w' = now w + 3000 * rounds_max (with_default 0 (wait_timeout options))
                   + (if with_default False (force_after_timeout options) then 2000 else 0)
             \<and> (\<exists>r. res = Inr r
                    \<and> elapsed_seconds r
                        = Some (3 * int (rounds_max (with_default 0 (wait_timeout options)))
                            + (if with_default False (force_after_timeout options) then 2 else 0))
                    \<and> success r = with_default False (force_after_timeout options)
                    \<and> forced r = (if with_default False (force_after_timeout options)
                                   then Some True else None))"
    using powerOffVM_never_stops [of B vid v st e w options] assms by auto
  show ?thesis
    using c1 c2 c3 c4 c5 c6 by (intro conjI) blast+
qed

text \<open>
  A VM that never stops, in simulated time: a wait of 1000 s fails after 300 s and runs
  as a wait of 300 s does; with force it ends forced after 302 s; a wait of -5 s sends
  the \<^verbatim>\<open>poweroff\<close> and returns success without sleeping.
\<close>

definition never_stops :: "int \<Rightarrow> bool \<Rightarrow> (exn + power_result) \<times> world" where
  "never_stops wait force =
     powerOffVM (fake_backend 7 db_vm (\<lambda>h t. True)) admin_env 7
       (power_opts (Some wait) (Some force)) (constructor_http admin_env 0)"

theorem powerOff_wait_is_clamped_witness:
  "map_sum id (\<lambda>r. (success r, elapsed_seconds r)) (fst (never_stops 1000 False))
     = Inr (False, Some 300)
   \<and> now (snd (never_stops 1000 False)) = 300000
   \<and> slept (trace (snd (never_stops 1000 False))) \<le> 300000
   \<and> map_prod (map_sum id strip_text) id (never_stops 300 False)
     = map_prod (map_sum id strip_text) id (never_stops 1000 False)
   \<and> map_sum id (\<lambda>r. (success r, forced r, elapsed_seconds r)) (fst (never_stops 1000 True))
     = Inr (True, Some True, Some 302)
   \<and> now (snd (never_stops 1000 True)) = 302000
   \<and> slept (trace (snd (never_stops 1000 True))) \<le> 302000
   \<and> map_sum id success (fst (never_stops (- 5) True)) = Inr True
   \<and> slept (trace (snd (never_stops (- 5) True))) = 0
   \<and> effects (trace (snd (never_stops (- 5) True)))
     = [Call ''GET'' ''/api/v4/vms/7?fields=most'' NoBody,
        Call ''GET'' ''/api/v4/machine_status'' NoBody,
        Call ''POST'' ''/api/v4/vm_actions'' (ActionBody 7 ''poweroff'')]"
proof -
  let ?B = "fake_backend 7 db_vm (\<lambda>h t. True)"
  let ?w = "constructor_http admin_env 0"
  let ?o = "power_opts (Some 1000) (Some False)"
  let ?p = "power_opts (Some (- 5)) (Some True)"
  let ?f = "power_opts (Some 1000) (Some True)"
  let ?x = "powerOffVM ?B admin_env 7 ?o ?w"
  let ?z = "powerOffVM ?B admin_env 7 ?f ?w"
  let ?y = "powerOffVM ?B admin_env 7 ?p ?w"
  let ?g = "getVMStatus ?B admin_env 7 ?w"
  let ?a = "vmAction ?B admin_env 7 ''poweroff'' (snd ?g)"
  have x: "?x = (fst ?x, snd ?x)" and y: "?y = (fst ?y, snd ?y)"
    and z: "?z = (fst ?z, snd ?z)" by simp_all
  have run: "\<forall>h t. ms_running (fake_row db_vm True)"
    by (simp add: fake_row_def)
  have w: "slept (trace ?w) = 0" "now ?w = 0" "effects (trace ?w) = []"
    by (simp_all add: constructor_http_def)
  have o: "with_default 0 (wait_timeout ?o) = 1000" "wait_timeout ?o = Some 1000"
    "with_default False (force_after_timeout ?o) = False"
    "?o\<lparr>wait_timeout := Some 300\<rparr> = power_opts (Some 300) (Some False)"
    "with_default 0 (wait_timeout ?p) = - 5"
    "with_default 0 (wait_timeout ?f) = 1000"
    "with_default False (force_after_timeout ?f) = True"
    by (simp_all add: power_opts_def with_default_def)
  have k: "rounds_max 1000 = 100"
    by (simp add: rounds_max_def)
  note ev = getVMStatus_def client_defs fixture_defs db_vm_def
  have g: "?g = (Inr (projr (fst ?g)), snd ?g)" and r: "running (projr (fst ?g))"
    by (simp_all add: ev)
  have a: "?a = (Inr (projr (fst ?a)), snd ?a)"
    by (simp add: ev)
  note t1 = powerOff_wait_is_clamped [OF x, where v = db_vm and st = "\<lambda>h t. fake_row db_vm True"]
  note t2 = powerOff_wait_is_clamped [OF y, where v = db_vm and st = "\<lambda>h t. fake_row db_vm True"]
  note t3 = powerOff_wait_is_clamped [OF z, where v = db_vm and st = "\<lambda>h t. fake_row db_vm True"]
  have 7: "now (snd ?z) = 302000"
    and 8: "\<exists>r. fst ?z = Inr r \<and> elapsed_seconds r = Some 302 \<and> success r = True
              \<and> forced r = Some True"
    using t3 fake_backend_instant [of 7 db_vm "\<lambda>h t. True"]
      fake_backend_serves [of 7 db_vm "\<lambda>h t. True"] admin_can_login [of ?w] run w o k
    by simp_all
  have 9: "slept (trace (snd ?z)) \<le> 302000"
    using t3 8 w o k by auto
  have 1: "now (snd ?x) = 300000"
    and 2: "\<exists>r. fst ?x = Inr r \<and> elapsed_seconds r = Some 300 \<and> success r = False
              \<and> forced r = None"
    using t1 fake_backend_instant [of 7 db_vm "\<lambda>h t. True"]
      fake_backend_serves [of 7 db_vm "\<lambda>h t. True"] admin_can_login [of ?w] run w o k
    by simp_all
  have 3: "slept (trace (snd ?x)) \<le> 300000"
    using t1 2 w o k by auto
  have 4: "map_prod (map_sum id strip_text) id (powerOffVM ?B admin_env 7
             (power_opts (Some 300) (Some False)) ?w)
           = map_prod (map_sum id strip_text) id ?x"
    using t1 o by (simp add: map_prod_def case_prod_beta)
  have 5: "slept (trace (snd ?y)) = 0"
    using t2 w o by simp
  have q: "with_default 0 (wait_timeout ?p) \<le> 0"
    using o by simp
  have all: "\<forall>st w1 j w2.
      getVMStatus ?B admin_env 7 ?w = (Inr st, w1) \<and> running st
      \<and> vmAction ?B admin_env 7 ''poweroff'' w1 = (Inr j, w2) \<longrightarrow>
      fst ?y = Inr (empty_power
        \<lparr>success := True,
         message := Some (''Graceful shutdown command sent to VM '' @ quoted (name st)),
         previous_state := Some (power_state st),
         note_text := Some ''Use wait_timeout parameter to wait for shutdown completion''\<rparr>)
      \<and> snd ?y = w2
      \<and> effects (trace (snd ?y)) = effects (trace ?w)
           @ [Call ''GET'' (vm_path 7) NoBody,
              Call ''GET'' ''/api/v4/machine_status'' NoBody,
              Call ''POST'' ''/api/v4/vm_actions'' (ActionBody 7 ''poweroff'')]"
    using t2 q by blast
  have 6: "map_sum id success (fst ?y) = Inr True
           \<and> effects (trace (snd ?y))
             = [Call ''GET'' (vm_path 7) NoBody,
                Call ''GET'' ''/api/v4/machine_status'' NoBody,
                Call ''POST'' ''/api/v4/vm_actions'' (ActionBody 7 ''poweroff'')]"
    using all [rule_format, OF conjI [OF g conjI [OF r a]], THEN conjunct1]
      all [rule_format, OF conjI [OF g conjI [OF r a]], THEN conjunct2, THEN conjunct2] w(3)
    by (simp add: empty_power_def)
  show ?thesis
    using 1 2 3 4 5 6 7 8 9
    by (auto simp: never_stops_def empty_power_def vm_path_def show_nat_digit)
qed

end
